theory Spec2Isabelle
  imports Main "HOL-Library.Sublist"
begin

section \<open>JavaScript strings\<close>

text \<open>
  A JavaScript string is a sequence of UTF-16 code units. The embedding uses \<^typ>\<open>string\<close>,
  whose characters are the code units below 256 (Latin-1); the character classes below
  are the JavaScript ones cut down to that range.
\<close>

definition code :: "char \<Rightarrow> int" where
  "code c = of_char c"

text \<open>White space and line terminators of \<open>String.prototype.trim\<close> and of the
  regular-expression class \<open>\s\<close>: TAB, LF, VT, FF, CR, SP, NBSP.\<close>

definition isSpace :: "char \<Rightarrow> bool" where
  "isSpace c = (code c \<in> {9, 10, 11, 12, 13, 32, 160})"

text \<open>The regular-expression dot matches everything but a line terminator.\<close>

definition isLineTerminator :: "char \<Rightarrow> bool" where
  "isLineTerminator c = (code c = 10 \<or> code c = 13)"

definition lowerChar :: "char \<Rightarrow> char" where
  "lowerChar c =
     (let n = code c in
      if (65 \<le> n \<and> n \<le> 90) \<or> (192 \<le> n \<and> n \<le> 222 \<and> n \<noteq> 215)
      then char_of (n + 32) else c)"

definition toLowerCase :: "string \<Rightarrow> string" where
  "toLowerCase s = map lowerChar s"

definition trim :: "string \<Rightarrow> string" where
  "trim s = rev (dropWhile isSpace (rev (dropWhile isSpace s)))"

text \<open>\<open>s.indexOf(t)\<close>: the first position at which \<open>t\<close> occurs in \<open>s\<close>, or \<open>-1\<close>.\<close>

fun indexOf :: "string \<Rightarrow> string \<Rightarrow> int" where
  "indexOf [] t = (if t = [] then 0 else - 1)"
| "indexOf (c # s) t =
     (if prefix t (c # s) then 0
      else (let r = indexOf s t in if r = - 1 then - 1 else r + 1))"

subsection \<open>The regular expressions of the paste handler\<close>

text \<open>
  Each regular expression of the source is written out as the matcher it denotes. None of
  them can backtrack into a different match: a greedy \<open>\s*\<close> or \<open>[^>]*\<close> is always followed
  by a character outside its class.
\<close>

text \<open>\<open>\s*\<close>\<close>

definition skipSpaces :: "string \<Rightarrow> string" where
  "skipSpaces s = dropWhile isSpace s"

text \<open>A literal under the \<open>i\<close> flag, matched at the start of \<open>s\<close>; the rest of \<open>s\<close> on
  success. The literals of the source are ASCII, and \<open>p\<close> is given in lower case.\<close>

definition litCI :: "string \<Rightarrow> string \<Rightarrow> string option" where
  "litCI p s =
     (if length p \<le> length s \<and> toLowerCase (take (length p) s) = p
      then Some (drop (length p) s) else None)"

text \<open>\<open>[^>]*>\<close>\<close>

definition tagRest :: "string \<Rightarrow> string option" where
  "tagRest s = (case dropWhile (\<lambda>c. c \<noteq> CHR ''>'') s of [] \<Rightarrow> None | _ # r \<Rightarrow> Some r)"

text \<open>\<open><meta[^>]+>\<close> at the start of \<open>s\<close> (no \<open>i\<close> flag).\<close>

definition matchMeta :: "string \<Rightarrow> string option" where
  "matchMeta s =
     (if prefix ''<meta'' s
      then (let r = drop 5 s
            in if takeWhile (\<lambda>c. c \<noteq> CHR ''>'') r = [] then None else tagRest r)
      else None)"

lemma tagRest_length: "tagRest s = Some r \<Longrightarrow> length r < length s"
proof -
  assume a: "tagRest s = Some r"
  have "length (dropWhile (\<lambda>c. c \<noteq> CHR ''>'') s) \<le> length s"
    by (rule length_dropWhile_le)
  with a show ?thesis
    by (auto simp: tagRest_def split: list.splits)
qed

lemma matchMeta_length: "matchMeta s = Some r \<Longrightarrow> length r < length s"
  by (auto simp: matchMeta_def Let_def split: if_splits dest!: tagRest_length)

text \<open>\<open>HTML.replace( /<meta[^>]+>/g, '' )\<close>\<close>

function stripMeta :: "string \<Rightarrow> string" where
  "stripMeta [] = []"
| "stripMeta (c # cs) =
     (case matchMeta (c # cs) of
        Some r \<Rightarrow> stripMeta r
      | None \<Rightarrow> c # stripMeta cs)"
  by pat_completeness auto
termination
  by (relation "measure length") (auto dest: matchMeta_length)

text \<open>\<open>(?:\s*<!--\s*StartFragment\s*-->)?\<close>: the rest after the group, when it matches.\<close>

definition matchStartFragment :: "string \<Rightarrow> string option" where
  "matchStartFragment s =
     (case litCI ''<!--'' (skipSpaces s) of
        None \<Rightarrow> None
      | Some r1 \<Rightarrow>
          (case litCI ''startfragment'' (skipSpaces r1) of
             None \<Rightarrow> None
           | Some r2 \<Rightarrow> litCI ''-->'' (skipSpaces r2)))"

text \<open>\<open>^\s*<html[^>]*>\s*<body[^>]*>\<close>\<close>

definition matchHtmlBody :: "string \<Rightarrow> string option" where
  "matchHtmlBody s =
     (case litCI ''<html'' (skipSpaces s) of
        None \<Rightarrow> None
      | Some r1 \<Rightarrow>
          (case tagRest r1 of
             None \<Rightarrow> None
           | Some r2 \<Rightarrow>
               (case litCI ''<body'' (skipSpaces r2) of
                  None \<Rightarrow> None
                | Some r3 \<Rightarrow> tagRest r3)))"

text \<open>The first Windows-marker replacement (anchored at the start, one match).\<close>

definition stripStartMarkers :: "string \<Rightarrow> string" where
  "stripStartMarkers s =
     (case matchHtmlBody s of
        None \<Rightarrow> s
      | Some r \<Rightarrow> (case matchStartFragment r of None \<Rightarrow> r | Some r' \<Rightarrow> r'))"

text \<open>\<open><\/body>\s*<\/html>\s*$\<close> at the start of \<open>s\<close>.\<close>

definition matchBodyEnd :: "string \<Rightarrow> bool" where
  "matchBodyEnd s =
     (case litCI ''</body>'' s of
        None \<Rightarrow> False
      | Some r1 \<Rightarrow>
          (case litCI ''</html>'' (skipSpaces r1) of
             None \<Rightarrow> False
           | Some r2 \<Rightarrow> skipSpaces r2 = []))"

text \<open>\<open>(?:<!--\s*EndFragment\s*-->\s*)?\<close>: the rest after the group, when it matches.\<close>

definition matchEndFragment :: "string \<Rightarrow> string option" where
  "matchEndFragment s =
     (case litCI ''<!--'' s of
        None \<Rightarrow> None
      | Some r1 \<Rightarrow>
          (case litCI ''endfragment'' (skipSpaces r1) of
             None \<Rightarrow> None
           | Some r2 \<Rightarrow>
               (case litCI ''-->'' (skipSpaces r2) of
                  None \<Rightarrow> None
                | Some r3 \<Rightarrow> Some (skipSpaces r3))))"

definition matchEndMarkers :: "string \<Rightarrow> bool" where
  "matchEndMarkers s =
     (case matchEndFragment s of
        Some r \<Rightarrow> matchBodyEnd r \<or> matchBodyEnd s
      | None \<Rightarrow> matchBodyEnd s)"

text \<open>The second Windows-marker replacement: the leftmost position where the expression
  matches up to the end of the string; the match is deleted.\<close>

fun stripEndMarkers :: "string \<Rightarrow> string" where
  "stripEndMarkers [] = []"
| "stripEndMarkers (c # cs) =
     (if matchEndMarkers (c # cs) then [] else c # stripEndMarkers cs)"

subsection \<open>String operations of the style functions\<close>

text \<open>\<open>\(.*?\)\<close> at the start of \<open>s\<close>: the match and the rest. The lazy \<open>.*?\<close> stops at the
  first closing parenthesis, and fails on a line terminator before it.\<close>

definition parenMatch :: "string \<Rightarrow> (string \<times> string) option" where
  "parenMatch s =
     (case s of
        [] \<Rightarrow> None
      | c # cs \<Rightarrow>
          if c = CHR ''(''
          then (let run = takeWhile (\<lambda>x. x \<noteq> CHR '')'' \<and> \<not> isLineTerminator x) cs
                in case drop (length run) cs of
                     [] \<Rightarrow> None
                   | d # r \<Rightarrow> if d = CHR '')'' then Some (c # run @ [d], r) else None)
          else None)"

lemma parenMatch_length: "parenMatch s = Some (m, r) \<Longrightarrow> length r < length s"
proof -
  assume a: "parenMatch s = Some (m, r)"
  then obtain c cs where s: "s = c # cs" by (cases s) (auto simp: parenMatch_def)
  define n where "n = length (takeWhile (\<lambda>x. x \<noteq> CHR '')'' \<and> \<not> isLineTerminator x) cs)"
  from a s obtain d where "drop n cs = d # r"
    by (auto simp: parenMatch_def Let_def n_def split: if_splits list.splits)
  then have "length (drop n cs) = Suc (length r)" by simp
  then show ?thesis using s by simp
qed

text \<open>\<open>s.replace( /\(.*?\)/g, f )\<close>\<close>

function replaceParens :: "(string \<Rightarrow> string) \<Rightarrow> string \<Rightarrow> string" where
  "replaceParens f [] = []"
| "replaceParens f (c # cs) =
     (case parenMatch (c # cs) of
        Some (m, r) \<Rightarrow> f m @ replaceParens f r
      | None \<Rightarrow> c # replaceParens f cs)"
  by pat_completeness auto
termination
  by (relation "measure (\<lambda>(f, s). length s)") (auto dest: parenMatch_length)

text \<open>\<open>match.replace( / /g, '_' )\<close> and \<open>match.replace( /_/g, '' )\<close>\<close>

definition spacesToUnderscores :: "string \<Rightarrow> string" where
  "spacesToUnderscores m = map (\<lambda>c. if c = CHR '' '' then CHR ''_'' else c) m"

definition dropUnderscores :: "string \<Rightarrow> string" where
  "dropUnderscores m = filter (\<lambda>c. c \<noteq> CHR ''_'') m"

text \<open>\<open>s.split(sep)\<close> for a non-empty separator: \<open>acc\<close> is the current piece, reversed.\<close>

function splitFrom :: "string \<Rightarrow> string \<Rightarrow> string \<Rightarrow> string list" where
  "splitFrom sep acc [] = [rev acc]"
| "splitFrom sep acc (c # cs) =
     (if sep \<noteq> [] \<and> prefix sep (c # cs)
      then rev acc # splitFrom sep [] (drop (length sep) (c # cs))
      else splitFrom sep (c # acc) cs)"
  by pat_completeness auto
termination
  by (relation "measure (\<lambda>(sep, acc, s). length s)") (auto simp: neq_Nil_conv)

definition split :: "string \<Rightarrow> string \<Rightarrow> string list" where
  "split s sep = splitFrom sep [] s"

text \<open>\<open>xs.join(sep)\<close>\<close>

fun join :: "string list \<Rightarrow> string \<Rightarrow> string" where
  "join [] sep = []"
| "join [x] sep = x"
| "join (x # y # ys) sep = x @ sep @ join (y # ys) sep"

subsection \<open>Objects with string keys\<close>

text \<open>
  An object is the list of its properties in insertion order. \<open>Object.entries\<close> and the
  spread enumerate array-index keys first, in ascending numeric order, then the other
  keys in insertion order.
\<close>

type_synonym 'v obj = "(string \<times> 'v) list"

definition isDigit :: "char \<Rightarrow> bool" where
  "isDigit c = (48 \<le> code c \<and> code c \<le> 57)"

definition numVal :: "string \<Rightarrow> int" where
  "numVal k = foldl (\<lambda>n c. 10 * n + (code c - 48)) 0 k"

definition isArrayIndex :: "string \<Rightarrow> bool" where
  "isArrayIndex k =
     (k \<noteq> [] \<and> list_all isDigit k \<and> (k = ''0'' \<or> hd k \<noteq> CHR ''0'') \<and>
      numVal k \<le> 4294967294)"

definition entries :: "'v obj \<Rightarrow> (string \<times> 'v) list" where
  "entries ob =
     sort_key (\<lambda>kv. numVal (fst kv)) (filter (\<lambda>kv. isArrayIndex (fst kv)) ob) @
     filter (\<lambda>kv. \<not> isArrayIndex (fst kv)) ob"

text \<open>Assignment of a property: an existing key keeps its place.\<close>

fun setProp :: "string \<Rightarrow> 'v \<Rightarrow> 'v obj \<Rightarrow> 'v obj" where
  "setProp k v [] = [(k, v)]"
| "setProp k v ((k', v') # ob) =
     (if k' = k then (k, v) # ob else (k', v') # setProp k v ob)"

text \<open>\<open>{ ...a, ...b }\<close> and \<open>Object.fromEntries\<close>\<close>

definition fromEntries :: "(string \<times> 'v) list \<Rightarrow> 'v obj" where
  "fromEntries kvs = foldl (\<lambda>ob kv. setProp (fst kv) (snd kv) ob) [] kvs"

definition spread :: "'v obj \<Rightarrow> 'v obj \<Rightarrow> 'v obj" where
  "spread a b =
     foldl (\<lambda>ob kv. setProp (fst kv) (snd kv) ob) (fromEntries (entries a)) (entries b)"

section \<open>The paste handler: removing default styles\<close>

datatype error = TypeError

text \<open>
  The values of a style entry are strings, except that the default of the destructuring
  \<open>[ key, values = [] ]\<close>, an empty array, becomes the single value of a \<open>color\<close>
  entry that has no colon.
\<close>

datatype styleValue = StyleString string | EmptyArray

definition stylesToSkip :: "string list" where
  "stylesToSkip = [''box-sizing'', ''background-color'', ''font-family'', ''border-radius'']"

definition defaultStyles :: string where
  "defaultStyles =
     ''color: rgb(40, 48, 61); font-family: -apple-system, system-ui, 'Sego'' @
     ''e UI', Roboto, Oxygen-Sans, Ubuntu, Cantarell, 'Helvetica Neue', san'' @
     ''s-serif; font-size: 20px; font-style: normal; font-variant-ligatures'' @
     '': normal; font-variant-caps: normal; font-weight: 400; letter-spacin'' @
     ''g: normal; orphans: 2; text-align: start; text-indent: 0px; text-tra'' @
     ''nsform: none; white-space: pre-wrap; widows: 2; word-spacing: 0px; -'' @
     ''webkit-text-stroke-width: 0px; background-color: rgb(209, 228, 221);'' @
     '' text-decoration-style: initial; text-decoration-color: initial; dis'' @
     ''play: inline !important; float: none;''"

text \<open>\<open>xs.map(f)\<close> for an \<open>f\<close> that may raise: the first error ends the map.\<close>

fun mapE :: "('a \<Rightarrow> error + 'b) \<Rightarrow> 'a list \<Rightarrow> error + 'b list" where
  "mapE f [] = Inr []"
| "mapE f (x # xs) =
     (case f x of
        Inl e \<Rightarrow> Inl e
      | Inr y \<Rightarrow> (case mapE f xs of Inl e \<Rightarrow> Inl e | Inr ys \<Rightarrow> Inr (y # ys)))"

text \<open>
  The callback of \<open>stylesArr.map\<close> in \<open>getStylesEntries\<close>. \<open>split\<close> returns at least one
  piece; without a second piece \<open>values\<close> is the empty array, and \<open>values.split\<close> is
  not a function.
\<close>

definition styleEntry :: "string \<Rightarrow> error + (string \<times> styleValue list)" where
  "styleEntry styles =
     (case split (trim styles) '':'' of
        [] \<Rightarrow> Inl TypeError
      | [key] \<Rightarrow> if key = ''color'' then Inr (key, [EmptyArray]) else Inl TypeError
      | key # values # _ \<Rightarrow>
          if key = ''color'' then Inr (key, [StyleString values])
          else Inr (key, map (\<lambda>w. StyleString (trim w)) (split values '', '')))"

definition getStylesEntries :: "string \<Rightarrow> error + (string \<times> styleValue list) list" where
  "getStylesEntries stylesString =
     mapE styleEntry
       (filter (\<lambda>x. x \<noteq> [])
          (split (replaceParens spacesToUnderscores stylesString) '';''))"

text \<open>lodash \<open>difference\<close>: the values of the first array that are not in the second; an
  array is equal to nothing but itself.\<close>

definition difference :: "styleValue list \<Rightarrow> styleValue list \<Rightarrow> styleValue list" where
  "difference values others =
     filter (\<lambda>v. case v of EmptyArray \<Rightarrow> True | StyleString _ \<Rightarrow> v \<notin> set others) values"

definition getNonDefaultStyles ::
  "(string \<times> styleValue list) list \<Rightarrow> (string \<times> styleValue list) list \<Rightarrow> styleValue list obj"
where
  "getNonDefaultStyles defaultStylesEntries stylesEntries =
     foldl (\<lambda>acc kv.
        (let defaultValues =
               (case find (\<lambda>d. fst d = fst kv) defaultStylesEntries of
                  None \<Rightarrow> []
                | Some d \<Rightarrow> snd d);
             diff = difference (snd kv) defaultValues;
             nonDefaultStyles = (if length diff \<noteq> 0 then [(fst kv, diff)] else [])
         in spread acc nonDefaultStyles))
       [] stylesEntries"

text \<open>An array of values as a string: its elements joined by commas, an empty array
  as the empty string.\<close>

definition valuesToString :: "styleValue list \<Rightarrow> string" where
  "valuesToString vs =
     join (map (\<lambda>v. case v of StyleString x \<Rightarrow> x | EmptyArray \<Rightarrow> []) vs) '',''"

definition fromObjToString :: "styleValue list obj \<Rightarrow> string" where
  "fromObjToString ob =
     join (map (\<lambda>pair. join [fst pair, valuesToString (snd pair)] '':'') (entries ob)) ''; ''"

section \<open>The paste handler: the document model\<close>

text \<open>
  A node of the document: an element with its tag name, its attributes in order and its
  child nodes, a text node, or a comment.
\<close>

datatype node =
    Element (nodeTag: string) (nodeAttributes: "(string \<times> string) list")
      (childNodes: "node list")
  | TextNode string
  | CommentNode string

text \<open>
  What the browser does: assigning to \<open>innerHTML\<close> parses a string into child nodes,
  reading \<open>innerHTML\<close> serializes child nodes, \<open>style.cssText\<close> is the serialization of
  the declarations of a style text, \<open>node.matches\<close> tests a selector, and
  \<open>String.prototype.normalize\<close> may be missing.
\<close>

record browser =
  parseHTML :: "string \<Rightarrow> node list"
  serializeHTML :: "node list \<Rightarrow> string"
  cssText :: "string \<Rightarrow> string"
  matchesSelector :: "node \<Rightarrow> string \<Rightarrow> bool"
  normalizeString :: "(string \<Rightarrow> string) option"

text \<open>\<open>element.style.cssText\<close>: empty without a style attribute.\<close>

definition styleText :: "browser \<Rightarrow> (string \<times> string) list \<Rightarrow> string" where
  "styleText br as =
     (case map_of as ''style'' of None \<Rightarrow> [] | Some v \<Rightarrow> cssText br v)"

text \<open>
  \<open>removeDefaultStyles\<close> on the attributes of an element. The assignment
  \<open>element.style = nonDefaultStyles\<close> sets the style attribute to the serialization of
  the declarations of the string (an attribute \<open>style=""\<close> when there are none).
\<close>

definition removeDefaultStyles ::
  "browser \<Rightarrow> (string \<times> string) list \<Rightarrow> error + (string \<times> string) list"
where
  "removeDefaultStyles br as =
     (let elementStyles = styleText br as in
      case getStylesEntries defaultStyles of
        Inl e \<Rightarrow> Inl e
      | Inr defaultStylesEntries \<Rightarrow>
          (case getStylesEntries elementStyles of
             Inl e \<Rightarrow> Inl e
           | Inr stylesEntries \<Rightarrow>
               (let diff = getNonDefaultStyles defaultStylesEntries stylesEntries;
                    withoutUnimportantProps =
                      fromEntries (filter (\<lambda>kv. fst kv \<notin> set stylesToSkip) (entries diff));
                    nonDefaultStyles =
                      replaceParens dropUnderscores (fromObjToString withoutUnimportantProps)
                in Inr (setProp ''style'' (cssText br nonDefaultStyles) as))))"

section \<open>The paste handler: the inline filter chain\<close>

text \<open>
  \<open>applyToAllSuccessors( { head, fn: removeDefaultStyles } )\<close> on the child nodes of
  \<open>head\<close>: \<open>head.children\<close> are the element children; each is given to \<open>fn\<close> and then
  its own successors are visited. \<open>fn\<close> changes the style attribute only, so the walk
  meets every element once, in document order; an error of \<open>fn\<close> ends it.
\<close>

fun applyToAllSuccessors_removeDefaultStyles :: "browser \<Rightarrow> node list \<Rightarrow> error + node list" where
  "applyToAllSuccessors_removeDefaultStyles br [] = Inr []"
| "applyToAllSuccessors_removeDefaultStyles br (Element t as cs # ns) =
     (case removeDefaultStyles br as of
        Inl e \<Rightarrow> Inl e
      | Inr as' \<Rightarrow>
          (case applyToAllSuccessors_removeDefaultStyles br cs of
             Inl e \<Rightarrow> Inl e
           | Inr cs' \<Rightarrow>
               (case applyToAllSuccessors_removeDefaultStyles br ns of
                  Inl e \<Rightarrow> Inl e
                | Inr ns' \<Rightarrow> Inr (Element t as' cs' # ns'))))"
| "applyToAllSuccessors_removeDefaultStyles br (n # ns) =
     (case applyToAllSuccessors_removeDefaultStyles br ns of
        Inl e \<Rightarrow> Inl e
      | Inr ns' \<Rightarrow> Inr (n # ns'))"

definition removeDefaultStylesFromAllElements :: "browser \<Rightarrow> string \<Rightarrow> error + string" where
  "removeDefaultStylesFromAllElements br html =
     (case applyToAllSuccessors_removeDefaultStyles br (parseHTML br html) of
        Inl e \<Rightarrow> Inl e
      | Inr ns \<Rightarrow> Inr (serializeHTML br ns))"

text \<open>The test of the callback in \<open>unwrapSpansWithNoStylesAndAtrrs\<close>.\<close>

definition hasNoStylesOrAttrs :: "browser \<Rightarrow> (string \<times> string) list \<Rightarrow> bool" where
  "hasNoStylesOrAttrs br as =
     (styleText br as = [] \<and> length (filter (\<lambda>attr. fst attr \<noteq> ''style'') as) = 0)"

text \<open>
  Modelled from the spec: \<open>unwrap\<close> of \<open>@wordpress/dom\<close> is not part of the sources. To
  unwrap an element is to replace it, in its parent, by its child nodes.
\<close>

text \<open>
  \<open>applyToAllSuccessors\<close> with the unwrapping callback, on the child nodes of \<open>head\<close>.
  \<open>head.children\<close> is a live collection and \<open>for ... of\<close> walks it by index: the step
  at index \<open>i\<close> takes the \<open>i\<close>-th element child that \<open>head\<close> has at that moment. \<open>unwrap\<close>
  moves the child nodes of the element in front of it and removes it, so after an
  unwrapping at index \<open>i\<close> the element now at index \<open>i\<close> (the first element among the
  moved child nodes and the following siblings) is passed over by the step at index
  \<open>i + 1\<close>. The list argument is what follows the current position; \<open>skip\<close> says that
  its first element is the one passed over. An unwrapped element has no child nodes left
  for the recursive call; an element that stays has its own child nodes walked.
\<close>

function applyToAllSuccessors_unwrap :: "browser \<Rightarrow> bool \<Rightarrow> node list \<Rightarrow> node list" where
  "applyToAllSuccessors_unwrap br skip [] = []"
| "applyToAllSuccessors_unwrap br skip (TextNode x # ns) =
     TextNode x # applyToAllSuccessors_unwrap br skip ns"
| "applyToAllSuccessors_unwrap br skip (CommentNode x # ns) =
     CommentNode x # applyToAllSuccessors_unwrap br skip ns"
| "applyToAllSuccessors_unwrap br skip (Element t as cs # ns) =
     (if skip then Element t as cs # applyToAllSuccessors_unwrap br False ns
      else if hasNoStylesOrAttrs br as then applyToAllSuccessors_unwrap br True (cs @ ns)
      else Element t as (applyToAllSuccessors_unwrap br False cs)
             # applyToAllSuccessors_unwrap br False ns)"
  by pat_completeness auto
termination
  by (relation "measure (\<lambda>(br, skip, ns). size_list size ns)") auto

definition unwrapSpansWithNoStylesAndAtrrs :: "browser \<Rightarrow> string \<Rightarrow> string" where
  "unwrapSpansWithNoStylesAndAtrrs br html =
     serializeHTML br (applyToAllSuccessors_unwrap br False (parseHTML br html))"

section \<open>The paste handler: blocks and collaborators\<close>

datatype block =
  Block (blockName: string) (blockAttributes: "(string \<times> string) list")
    (innerBlocks: "block list")

text \<open>A piece of \<open>shortcodeConverter\<close>: a string of markup, or a block that replaces a
  shortcode.\<close>

datatype piece = PieceHTML string | PieceBlock block

text \<open>The filters that the handler passes to \<open>deepFilterHTML\<close>, by name.\<close>

datatype contentFilter =
    googleDocsUIDRemover | msListConverter | headRemover | listReducer | imageCorrector
  | phrasingContentReducer | specialCommentConverter | commentRemover | iframeRemover
  | figureContentReducer | blockquoteNormaliser | htmlFormattingRemover | brRemover
  | emptyParagraphRemover

text \<open>
  A transform of the registry. \<open>transform\<close> returns a block; \<open>None\<close> stands for a falsy
  result, which \<open>compact\<close> drops.
\<close>

record blockTransform =
  transformType :: string
  isMatch :: "(node \<Rightarrow> bool) option"
  selector :: "string option"
  transform :: "(node \<Rightarrow> block option) option"
  transformBlockName :: string

text \<open>A raw transform as \<open>getRawTransformations\<close> returns it: \<open>isMatch\<close> is a function.\<close>

record rawTransform =
  rawIsMatch :: "node \<Rightarrow> bool"
  rawTransformFn :: "(node \<Rightarrow> block option) option"
  rawBlockName :: string

text \<open>
  The functions that the handler imports from modules that are not part of the sources:
  they are parameters. A schema is an object from tag names to \<open>'s\<close>.
\<close>

record 's collaborators =
  parseWithGrammar :: "string \<Rightarrow> block list"
  markdownConverter :: "string \<Rightarrow> string"
  isPlain :: "string \<Rightarrow> bool"
  shortcodeConverter :: "string \<Rightarrow> piece list"
  isInlineContent :: "string \<Rightarrow> string option \<Rightarrow> bool"
  deepFilterHTML :: "string \<Rightarrow> contentFilter list \<Rightarrow> 's obj option \<Rightarrow> string"
  removeInvalidHTML :: "string \<Rightarrow> 's obj \<Rightarrow> string"
  normaliseBlocks :: "string \<Rightarrow> string"
  getBlockTransforms :: "string \<Rightarrow> blockTransform list"
  getPhrasingContentSchema :: "string \<Rightarrow> 's obj"
  getBlockContentSchema :: "rawTransform list \<Rightarrow> 's obj \<Rightarrow> bool \<Rightarrow> 's obj"
  hasBlockSupport :: "string \<Rightarrow> string \<Rightarrow> bool \<Rightarrow> bool"
  getBlockContent :: "block \<Rightarrow> string"
  extractAttributes :: "string \<Rightarrow> string \<Rightarrow> (string \<times> string) list"

text \<open>
  Modelled from the spec: \<open>createBlock\<close> of \<open>../factory\<close> is not part of the sources. A block
  is identified by a type name and holds a mapping of attribute names to values and a
  sequence of child blocks; a block made from markup has no children.
\<close>

definition createBlock :: "string \<Rightarrow> (string \<times> string) list \<Rightarrow> block" where
  "createBlock name as = Block name as []"

text \<open>
  Modelled from the spec: \<open>getBlockAttributes\<close> of \<open>../parser\<close> is not part of the sources.
  The sole attribute of the opaque-markup type \<open>core/html\<close> is the markup itself, stored
  verbatim (under the name \<open>content\<close> here); for any other type the attribute extractor
  derives the values from the type name and the markup.
\<close>

definition getBlockAttributes ::
  "'s collaborators \<Rightarrow> string \<Rightarrow> string \<Rightarrow> (string \<times> string) list"
where
  "getBlockAttributes env name html =
     (if name = ''core/html'' then [(''content'', html)] else extractAttributes env name html)"

text \<open>
  Modelled from the spec: \<open>findTransform\<close> of \<open>../factory\<close> is not part of the sources.
  Rules are queried in registration order and the first match wins; no match is \<open>None\<close>.
\<close>

definition findTransform :: "'t list \<Rightarrow> ('t \<Rightarrow> bool) \<Rightarrow> 't option" where
  "findTransform transforms predicate = find predicate transforms"

section \<open>The paste handler: markup to blocks\<close>

text \<open>
  The inline filter chain. The call of \<open>removeInvalidHTML\<close> with the phrasing-content
  schema is commented out in the source and is not part of the chain; \<open>console.log\<close>
  does not change the result and is left out here and in the block pipeline.
\<close>

definition filterInlineHTML ::
  "'s collaborators \<Rightarrow> browser \<Rightarrow> string \<Rightarrow> bool option \<Rightarrow> error + string"
where
  "filterInlineHTML env br html0 preserveWhiteSpace =
     (case removeDefaultStylesFromAllElements br html0 of
        Inl e \<Rightarrow> Inl e
      | Inr html1 \<Rightarrow>
          (let html2 = deepFilterHTML env html1
                         [googleDocsUIDRemover, phrasingContentReducer, commentRemover] None;
               html3 = (if preserveWhiteSpace \<noteq> Some True
                        then deepFilterHTML env html2 [htmlFormattingRemover, brRemover] None
                        else html2)
           in Inr (unwrapSpansWithNoStylesAndAtrrs br html3)))"

definition getRawTransformations :: "'s collaborators \<Rightarrow> browser \<Rightarrow> rawTransform list" where
  "getRawTransformations env br =
     map (\<lambda>t.
        \<lparr> rawIsMatch =
            (case isMatch t of
               Some f \<Rightarrow> f
             | None \<Rightarrow>
                 (\<lambda>node. case selector t of
                            None \<Rightarrow> False
                          | Some sel \<Rightarrow> sel \<noteq> [] \<and> matchesSelector br node sel)),
          rawTransformFn = transform t,
          rawBlockName = transformBlockName t \<rparr>)
       (filter (\<lambda>t. transformType t = ''raw'') (getBlockTransforms env ''from''))"

fun isElement :: "node \<Rightarrow> bool" where
  "isElement (Element t as cs) = True"
| "isElement n = False"

text \<open>\<open>node.outerHTML\<close>\<close>

definition outerHTML :: "browser \<Rightarrow> node \<Rightarrow> string" where
  "outerHTML br node = serializeHTML br [node]"

text \<open>The callback of the map in \<open>htmlToBlocks\<close>.\<close>

definition nodeToBlock ::
  "'s collaborators \<Rightarrow> browser \<Rightarrow> rawTransform list \<Rightarrow> node \<Rightarrow> block option"
where
  "nodeToBlock env br rawTransforms node =
     (case findTransform rawTransforms (\<lambda>t. rawIsMatch t node) of
        None \<Rightarrow>
          Some (createBlock ''core/html'' (getBlockAttributes env ''core/html'' (outerHTML br node)))
      | Some rt \<Rightarrow>
          (case rawTransformFn rt of
             Some f \<Rightarrow> f node
           | None \<Rightarrow>
               Some (createBlock (rawBlockName rt)
                       (getBlockAttributes env (rawBlockName rt) (outerHTML br node)))))"

text \<open>\<open>doc.body.children\<close> are the element children of the parsed body; the body of the
  new document is parsed as the container \<open>div\<close> of the inline chain is.\<close>

definition htmlToBlocks ::
  "'s collaborators \<Rightarrow> browser \<Rightarrow> string \<Rightarrow> rawTransform list \<Rightarrow> block option list"
where
  "htmlToBlocks env br html rawTransforms =
     map (nodeToBlock env br rawTransforms) (filter isElement (parseHTML br html))"

section \<open>The paste handler\<close>

datatype handlerMode = AUTO | INLINE | BLOCKS

text \<open>The options object; \<open>None\<close> is a property that is absent or \<open>undefined\<close>.\<close>

record pasteInput =
  HTML :: "string option"
  plainText :: "string option"
  mode :: "handlerMode option"
  tagName :: "string option"
  preserveWhiteSpace :: "bool option"

datatype pasteResult = Str string | Blocks "block list"

text \<open>The default values of the parameters: \<open>HTML = ''\<close>, \<open>plainText = ''\<close>,
  \<open>mode = 'AUTO'\<close>.\<close>

definition htmlOf :: "pasteInput \<Rightarrow> string" where
  "htmlOf inp = (case HTML inp of None \<Rightarrow> [] | Some h \<Rightarrow> h)"

definition plainTextOf :: "pasteInput \<Rightarrow> string" where
  "plainTextOf inp = (case plainText inp of None \<Rightarrow> [] | Some p \<Rightarrow> p)"

definition modeOf :: "pasteInput \<Rightarrow> handlerMode" where
  "modeOf inp = (case mode inp of None \<Rightarrow> AUTO | Some m \<Rightarrow> m)"

text \<open>The three replacements at the head of \<open>pasteHandler\<close>.\<close>

definition stripBoilerplate :: "string \<Rightarrow> string" where
  "stripBoilerplate html = stripEndMarkers (stripStartMarkers (stripMeta html))"

text \<open>\<open>const content = HTML ? HTML : plainText\<close>, after the replacements.\<close>

definition delimiterContent :: "pasteInput \<Rightarrow> string" where
  "delimiterContent inp =
     (let html = stripBoilerplate (htmlOf inp)
      in if html \<noteq> [] then html else plainTextOf inp)"

text \<open>\<open>if ( String.prototype.normalize ) HTML = HTML.normalize()\<close>\<close>

definition normalizedHTML :: "browser \<Rightarrow> pasteInput \<Rightarrow> string" where
  "normalizedHTML br inp =
     (case normalizeString br of
        None \<Rightarrow> stripBoilerplate (htmlOf inp)
      | Some f \<Rightarrow> f (stripBoilerplate (htmlOf inp)))"

text \<open>
  The Markdown step: the markup and the mode that the rest of the handler works with.
\<close>

definition markdownStep ::
  "'s collaborators \<Rightarrow> browser \<Rightarrow> pasteInput \<Rightarrow> string \<times> handlerMode"
where
  "markdownStep env br inp =
     (let text = plainTextOf inp;
          mode0 = modeOf inp;
          html2 = normalizedHTML br inp
      in if text \<noteq> [] \<and> (html2 = [] \<or> isPlain env html2)
         then (let html3 = markdownConverter env text
               in if mode0 = AUTO \<and> indexOf text ''\<newline>'' = - 1 \<and>
                     indexOf text ''<p>'' \<noteq> 0 \<and> indexOf html3 ''<p>'' = 0
                  then (html3, INLINE) else (html3, mode0))
         else (html2, mode0))"

text \<open>lodash \<open>compact\<close>: the falsy values are dropped.\<close>

definition compact :: "'a option list \<Rightarrow> 'a list" where
  "compact xs = List.map_filter (\<lambda>x. x) xs"

text \<open>The callback of \<open>flatMap\<close>.\<close>

definition pieceToBlocks ::
  "'s collaborators \<Rightarrow> browser \<Rightarrow> rawTransform list \<Rightarrow> 's obj \<Rightarrow> 's obj \<Rightarrow> piece
     \<Rightarrow> block option list"
where
  "pieceToBlocks env br rawTransforms blockContentSchema phrasingContentSchema pc =
     (case pc of
        PieceBlock b \<Rightarrow> [Some b]
      | PieceHTML piece0 \<Rightarrow>
          (let filters =
                 [googleDocsUIDRemover, msListConverter, headRemover, listReducer,
                  imageCorrector, phrasingContentReducer, specialCommentConverter,
                  commentRemover, iframeRemover, figureContentReducer, blockquoteNormaliser];
               schema = spread blockContentSchema phrasingContentSchema;
               piece1 = deepFilterHTML env piece0 filters (Some blockContentSchema);
               piece2 = removeInvalidHTML env piece1 schema;
               piece3 = normaliseBlocks env piece2;
               piece4 = deepFilterHTML env piece3
                          [htmlFormattingRemover, brRemover, emptyParagraphRemover]
                          (Some blockContentSchema)
           in htmlToBlocks env br piece4 rawTransforms))"

text \<open>The blocks of the block pipeline, from the pieces of the working markup.\<close>

definition pasteBlocks :: "'s collaborators \<Rightarrow> browser \<Rightarrow> piece list \<Rightarrow> block list" where
  "pasteBlocks env br pieces =
     (let rawTransforms = getRawTransformations env br;
          phrasingContentSchema = getPhrasingContentSchema env ''paste'';
          blockContentSchema = getBlockContentSchema env rawTransforms phrasingContentSchema True
      in compact (concat (map
           (pieceToBlocks env br rawTransforms blockContentSchema phrasingContentSchema)
           pieces)))"

definition inlineResult :: "error + string \<Rightarrow> error + pasteResult" where
  "inlineResult r = (case r of Inl e \<Rightarrow> Inl e | Inr x \<Rightarrow> Inr (Str x))"

definition pasteHandler ::
  "'s collaborators \<Rightarrow> browser \<Rightarrow> pasteInput \<Rightarrow> error + pasteResult"
where
  "pasteHandler env br inp =
     (let text = plainTextOf inp;
          mode0 = modeOf inp;
          content = delimiterContent inp
      in if mode0 \<noteq> INLINE \<and> indexOf content ''<!-- wp:'' \<noteq> - 1
         then Inr (Blocks (parseWithGrammar env content))
         else
           (let html = fst (markdownStep env br inp);
                mode1 = snd (markdownStep env br inp)
            in if mode1 = INLINE
               then inlineResult (filterInlineHTML env br html (preserveWhiteSpace inp))
               else
                 (let pieces = shortcodeConverter env html;
                      hasShortcodes = (length pieces > 1)
                  in if mode1 = AUTO \<and> \<not> hasShortcodes \<and> isInlineContent env html (tagName inp)
                     then inlineResult (filterInlineHTML env br html (preserveWhiteSpace inp))
                     else
                       (let blocks = pasteBlocks env br pieces in
                        case blocks of
                          [b] \<Rightarrow>
                            if mode1 = AUTO \<and>
                               hasBlockSupport env (blockName b) ''__unstablePasteTextInline'' False
                            then (let trimmedPlainText = trim text
                                  in if trimmedPlainText \<noteq> [] \<and>
                                        indexOf trimmedPlainText ''\<newline>'' = - 1
                                     then Inr (Str (removeInvalidHTML env (getBlockContent env b)
                                                     (getPhrasingContentSchema env ''paste'')))
                                     else Inr (Blocks blocks))
                            else Inr (Blocks blocks)
                        | _ \<Rightarrow> Inr (Blocks blocks)))))"

section \<open>A browser and collaborators for the examples\<close>

text \<open>
  The examples below run the handler on concrete strings. They use a browser that reads
  and writes the plain subset of HTML the examples are written in (tags with
  double-quoted attributes, text without character references, comments) and that takes a
  style text for its own serialization. It stands for the browser in the examples only: the
  general theorems hold for every browser and every choice of collaborators.
\<close>

datatype token = TOpen string "(string \<times> string) list" | TClose string | TText string
  | TComment string

fun pairUp :: "string list \<Rightarrow> (string \<times> string) list" where
  "pairUp (n # v # rest) = (butlast (trim n), v) # pairUp rest"
| "pairUp rest = []"

definition textToken :: "string \<Rightarrow> token list" where
  "textToken t = (if t = [] then [] else [TText t])"

definition tagToken :: "string \<Rightarrow> token" where
  "tagToken inside =
     (if prefix ''!--'' inside then TComment (drop 3 (take (length inside - 2) inside))
      else if prefix ''/'' inside then TClose (drop 1 inside)
      else TOpen (takeWhile (\<lambda>c. c \<noteq> CHR '' '') inside)
                 (pairUp (split (dropWhile (\<lambda>c. c \<noteq> CHR '' '') inside) ''\"'')))"

definition exampleTokens :: "string \<Rightarrow> token list" where
  "exampleTokens s =
     (case split s ''<'' of
        [] \<Rightarrow> []
      | t # ps \<Rightarrow>
          textToken t @
          concat (map (\<lambda>p. (let inside = takeWhile (\<lambda>c. c \<noteq> CHR ''>'') p
                              in tagToken inside # textToken (drop (length inside + 1) p))) ps))"

definition voidTags :: "string list" where
  "voidTags = [''area'', ''base'', ''br'', ''col'', ''embed'', ''hr'', ''img'', ''input'',
               ''link'', ''meta'', ''source'', ''track'', ''wbr'']"

text \<open>The open elements are a stack of tag, attributes and the earlier siblings, reversed.\<close>

fun buildTree ::
  "(string \<times> (string \<times> string) list \<times> node list) list \<Rightarrow> node list \<Rightarrow> token list \<Rightarrow> node list"
where
  "buildTree st cur [] = rev cur"
| "buildTree st cur (TText t # ts) = buildTree st (TextNode t # cur) ts"
| "buildTree st cur (TComment t # ts) = buildTree st (CommentNode t # cur) ts"
| "buildTree st cur (TOpen n as # ts) =
     (if n \<in> set voidTags then buildTree st (Element n as [] # cur) ts
      else buildTree ((n, as, cur) # st) [] ts)"
| "buildTree [] cur (TClose n # ts) = buildTree [] cur ts"
| "buildTree ((n, as, sibs) # st) cur (TClose m # ts) =
     buildTree st (Element n as (rev cur) # sibs) ts"

definition exampleParse :: "string \<Rightarrow> node list" where
  "exampleParse s = buildTree [] [] (exampleTokens s)"

fun exampleSerialize :: "node list \<Rightarrow> string" where
  "exampleSerialize [] = []"
| "exampleSerialize (TextNode t # ns) = t @ exampleSerialize ns"
| "exampleSerialize (CommentNode t # ns) = ''<!--'' @ t @ ''-->'' @ exampleSerialize ns"
| "exampleSerialize (Element n as cs # ns) =
     ''<'' @ n @ concat (map (\<lambda>a. '' '' @ fst a @ ''=\"'' @ snd a @ ''\"'') as) @ ''>'' @
     (if n \<in> set voidTags then [] else exampleSerialize cs @ ''</'' @ n @ ''>'') @
     exampleSerialize ns"

fun hasTag :: "node \<Rightarrow> string \<Rightarrow> bool" where
  "hasTag (Element n as cs) sel = (n = sel)"
| "hasTag other sel = False"

definition exampleBrowser :: browser where
  "exampleBrowser =
     \<lparr> parseHTML = exampleParse,
       serializeHTML = exampleSerialize,
       cssText = (\<lambda>s. s),
       matchesSelector = hasTag,
       normalizeString = Some (\<lambda>s. s) \<rparr>"

text \<open>
  Collaborators for the examples: the grammar parser wraps its input in one block; a
  line of text without Markdown syntax becomes a paragraph; markup is plain when it has
  no tag; there are no shortcodes; the content filters, the schema filter and the
  normalizer leave the markup of the examples as it is; the registry has the raw
  transform of the paragraph, which opts in to inline pasting.
\<close>

definition exampleCollaborators :: "unit collaborators" where
  "exampleCollaborators =
     \<lparr> parseWithGrammar = (\<lambda>s. [Block ''core/freeform'' [(''content'', s)] []]),
       markdownConverter = (\<lambda>s. ''<p>'' @ s @ ''</p>''),
       isPlain = (\<lambda>s. CHR ''<'' \<notin> set s),
       shortcodeConverter = (\<lambda>s. [PieceHTML s]),
       isInlineContent = (\<lambda>s t. False),
       deepFilterHTML = (\<lambda>s fs sch. s),
       removeInvalidHTML = (\<lambda>s sch. s),
       normaliseBlocks = (\<lambda>s. s),
       getBlockTransforms = (\<lambda>d.
         [\<lparr> transformType = ''raw'', isMatch = None, selector = Some ''p'',
             transform = None, transformBlockName = ''core/paragraph'' \<rparr>]),
       getPhrasingContentSchema = (\<lambda>c. []),
       getBlockContentSchema = (\<lambda>ts sch b. []),
       hasBlockSupport = (\<lambda>n f d.
         if n = ''core/paragraph'' \<and> f = ''__unstablePasteTextInline'' then True else d),
       getBlockContent = (\<lambda>b. case map_of (blockAttributes b) ''content'' of
                                  None \<Rightarrow> [] | Some c \<Rightarrow> c),
       extractAttributes = (\<lambda>n html. [(''content'', html)]) \<rparr>"

section \<open>The term-tree filter (hierarchical-term-selector.js)\<close>

text \<open>
  A term of the tree built by \<open>buildTermsTree\<close>: its id, its name and the array of its
  children (always an array there, empty for a leaf). The other properties of a term are
  copied by the spread and play no part in the filter; they are left out.
\<close>

datatype termNode = TermNode (termId: int) (name: string) (children: "termNode list")

text \<open>
  \<open>getFilterMatcher(filterValue)\<close> returns \<open>matchTermsForFilter\<close>, which returns a
  term or \<open>false\<close>; \<open>false\<close> is \<open>None\<close>. The spread \<open>{ ...originalTerm }\<close> copies the
  fields, and the assignment to \<open>term.children\<close> replaces the copy's field.
  \<open>.map(matchTermsForFilter).filter(child => child)\<close> is \<^const>\<open>List.map_filter\<close>.
\<close>

fun getFilterMatcher :: "string \<Rightarrow> termNode \<Rightarrow> termNode option" where
  "getFilterMatcher filterValue (TermNode i n cs) =
     (if filterValue = [] then Some (TermNode i n cs)
      else
        (let cs' = (if length cs > 0
                    then List.map_filter (\<lambda>x. x) (map (getFilterMatcher filterValue) cs)
                    else cs)
         in if - 1 \<noteq> indexOf (toLowerCase n) (toLowerCase filterValue) \<or> length cs' > 0
            then Some (TermNode i n cs')
            else None))"

subsection \<open>The filter on a store of objects\<close>

text \<open>
  Terms are objects and \<open>children\<close> holds a reference to an array, so the same function is
  also written over a store: a list of cells, the reference of a cell being its index. A
  term cell has the id, the name and the reference of the children array; an array cell has
  the references of its elements. Allocation appends a cell.
\<close>

datatype cell = TermCell int string nat | ArrayCell "nat list"

type_synonym store = "cell list"

definition lookup :: "store \<Rightarrow> nat \<Rightarrow> cell option" where
  "lookup h r = (if r < length h then Some (h ! r) else None)"

text \<open>
  \<open>matchTermsForFilter\<close> on the store. The spread allocates the copy \<open>term\<close>;
  \<open>.map(...).filter(...)\<close> visits the children in order and allocates the array of the
  kept results (the array between \<open>map\<close> and \<open>filter\<close> is not referenced afterwards and is
  left out); the assignment to \<open>term.children\<close> updates the copy's cell. The first argument
  bounds the depth of the recursion; the result is \<open>None\<close> when it is used up or when a
  reference does not lead to a cell of the expected kind.
\<close>

fun matchTermsForFilter :: "nat \<Rightarrow> string \<Rightarrow> store \<Rightarrow> nat \<Rightarrow> (store \<times> nat option) option"
  and mapMatch :: "nat \<Rightarrow> string \<Rightarrow> store \<Rightarrow> nat list \<Rightarrow> (store \<times> nat option list) option"
where
  "matchTermsForFilter 0 fv h r = None"
| "matchTermsForFilter (Suc k) fv h r =
     (if fv = [] then Some (h, Some r)
      else
        (case lookup h r of
           Some (TermCell i n c) \<Rightarrow>
             (let term = length h;
                  h1 = h @ [TermCell i n c]
              in case lookup h1 c of
                   Some (ArrayCell cs) \<Rightarrow>
                     (if length cs > 0
                      then (case mapMatch k fv h1 cs of
                              None \<Rightarrow> None
                            | Some (h2, rs) \<Rightarrow>
                                (let kept = List.map_filter (\<lambda>x. x) rs;
                                     arr = length h2;
                                     h3 = (h2 @ [ArrayCell kept])[term := TermCell i n arr]
                                 in if - 1 \<noteq> indexOf (toLowerCase n) (toLowerCase fv) \<or>
                                       length kept > 0
                                    then Some (h3, Some term) else Some (h3, None)))
                      else (if - 1 \<noteq> indexOf (toLowerCase n) (toLowerCase fv) \<or> length cs > 0
                            then Some (h1, Some term) else Some (h1, None)))
                 | _ \<Rightarrow> None)
         | _ \<Rightarrow> None))"
| "mapMatch k fv h [] = Some (h, [])"
| "mapMatch k fv h (c # cs) =
     (case matchTermsForFilter k fv h c of
        None \<Rightarrow> None
      | Some (h', r) \<Rightarrow>
          (case mapMatch k fv h' cs of
             None \<Rightarrow> None
           | Some (h'', rs) \<Rightarrow> Some (h'', r # rs)))"

text \<open>
  The store \<open>h\<close> holds the term tree \<open>x\<close> at reference \<open>r\<close>, in cells whose references
  are not in \<open>B\<close>.
\<close>

fun represents :: "store \<Rightarrow> nat set \<Rightarrow> nat \<Rightarrow> termNode \<Rightarrow> bool" where
  "represents h B r (TermNode i n cs) =
     (r \<notin> B \<and>
      (case lookup h r of
         Some (TermCell i' n' c) \<Rightarrow>
           i' = i \<and> n' = n \<and> c \<notin> B \<and>
           (case lookup h c of
              Some (ArrayCell rs) \<Rightarrow> list_all2 (represents h B) rs cs
            | _ \<Rightarrow> False)
       | _ \<Rightarrow> False))"

fun depth :: "termNode \<Rightarrow> nat" where
  "depth (TermNode i n cs) = Suc (foldr max (map depth cs) 0)"

text \<open>The result \<open>ro\<close> on the store corresponds to the result \<open>xo\<close> on values.\<close>

definition keptAt :: "store \<Rightarrow> nat set \<Rightarrow> nat option \<Rightarrow> termNode option \<Rightarrow> bool" where
  "keptAt h B ro xo =
     (case xo of
        None \<Rightarrow> ro = None
      | Some x' \<Rightarrow> (case ro of None \<Rightarrow> False | Some r' \<Rightarrow> represents h B r' x'))"


section \<open>Properties of the term-tree filter\<close>


lemma indexOf_ge: "- 1 \<le> indexOf s t"
  by (induction s) (auto simp: Let_def)

lemma indexOf_sublist: "(indexOf s t \<noteq> - 1) = sublist t s"
proof (induction s)
  case Nil
  then show ?case by simp
next
  case (Cons c s)
  have "- 1 \<le> indexOf s t" by (rule indexOf_ge)
  then have ne: "indexOf s t + 1 \<noteq> - 1" by simp
  show ?case
  proof (cases "prefix t (c # s)")
    case True
    then show ?thesis by (auto simp: sublist_Cons_right)
  next
    case False
    have "(indexOf (c # s) t \<noteq> - 1) = (indexOf s t \<noteq> - 1)"
      using False ne by (simp add: Let_def)
    also have "\<dots> = sublist t s" by (rule Cons.IH)
    also have "\<dots> = sublist t (c # s)" using False by (simp add: sublist_Cons_right)
    finally show ?thesis .
  qed
qed

lemma map_filter_id_map: "List.map_filter (\<lambda>x. x) (map f xs) = List.map_filter f xs"
  by (induction xs) (auto simp: List.map_filter_simps split: option.splits)

lemma map_filter_nonempty: "(List.map_filter f xs \<noteq> []) = (\<exists>x\<in>set xs. f x \<noteq> None)"
  by (induction xs) (auto simp: List.map_filter_simps split: option.splits)

lemma getFilterMatcher_unfold:
  assumes "filterValue \<noteq> []"
  shows "getFilterMatcher filterValue (TermNode i n cs) =
     (let cs' = List.map_filter (getFilterMatcher filterValue) cs
      in if sublist (toLowerCase filterValue) (toLowerCase n) \<or> cs' \<noteq> []
         then Some (TermNode i n cs') else None)"
proof -
  have a: "(- 1 \<noteq> indexOf (toLowerCase n) (toLowerCase filterValue))
           = sublist (toLowerCase filterValue) (toLowerCase n)"
    using indexOf_sublist[of "toLowerCase n" "toLowerCase filterValue"] by auto
  have b: "(if length cs > 0
            then List.map_filter (\<lambda>x. x) (map (getFilterMatcher filterValue) cs) else cs)
           = List.map_filter (getFilterMatcher filterValue) cs"
  proof (cases "0 < length cs")
    case True
    then show ?thesis by (simp only: if_True map_filter_id_map)
  next
    case False
    then show ?thesis by simp
  qed
  show ?thesis
    unfolding getFilterMatcher.simps a b using assms by (simp add: Let_def)
qed

lemma lookup_Some_less: "lookup h r = Some c \<Longrightarrow> r < length h"
  by (simp add: lookup_def split: if_splits)

lemma lookup_prefix: "prefix h h' \<Longrightarrow> lookup h r = Some c \<Longrightarrow> lookup h' r = Some c"
  by (auto simp: lookup_def prefix_def nth_append split: if_splits)

lemma lookup_update_other: "r \<noteq> t \<Longrightarrow> lookup (h[t := v]) r = lookup h r"
  by (simp add: lookup_def)

lemma represents_iff:
  "represents h B r (TermNode i n cs) =
     (r \<notin> B \<and>
      (\<exists>c rs. lookup h r = Some (TermCell i n c) \<and> c \<notin> B \<and>
              lookup h c = Some (ArrayCell rs) \<and> list_all2 (represents h B) rs cs))"
proof (cases "lookup h r")
  case None
  then show ?thesis by simp
next
  case (Some a)
  show ?thesis
  proof (cases a)
    case (TermCell i' n' c)
    show ?thesis
    proof (cases "lookup h c")
      case None
      then show ?thesis using Some TermCell by auto
    next
      case (Some b)
      then show ?thesis using \<open>lookup h r = Some a\<close> TermCell by (cases b) auto
    qed
  next
    case (ArrayCell rs)
    then show ?thesis using Some by simp
  qed
qed

lemma represents_prefix:
  "represents h B r x \<Longrightarrow> prefix h h' \<Longrightarrow> represents h' B r x"
proof (induction x arbitrary: r)
  case (TermNode i n cs)
  from TermNode.prems(1) obtain c rs where
    r: "r \<notin> B" and lr: "lookup h r = Some (TermCell i n c)" and c: "c \<notin> B"
    and lc: "lookup h c = Some (ArrayCell rs)" and a: "list_all2 (represents h B) rs cs"
    unfolding represents_iff by blast
  have "list_all2 (represents h' B) rs cs"
    using a TermNode.IH TermNode.prems(2)
    by (auto simp: list_all2_conv_all_nth)
  then show ?case
    unfolding represents_iff
    using r c lookup_prefix [OF TermNode.prems(2) lr] lookup_prefix [OF TermNode.prems(2) lc]
    by blast
qed

lemma represents_update:
  "represents h B r x \<Longrightarrow> t \<in> B \<Longrightarrow> represents (h[t := v]) B r x"
proof (induction x arbitrary: r)
  case (TermNode i n cs)
  from TermNode.prems(1) obtain c rs where
    r: "r \<notin> B" and lr: "lookup h r = Some (TermCell i n c)" and c: "c \<notin> B"
    and lc: "lookup h c = Some (ArrayCell rs)" and a: "list_all2 (represents h B) rs cs"
    unfolding represents_iff by blast
  have "list_all2 (represents (h[t := v]) B) rs cs"
    using a TermNode.IH TermNode.prems(2)
    by (auto simp: list_all2_conv_all_nth)
  moreover have "r \<noteq> t" "c \<noteq> t" using r c TermNode.prems(2) by auto
  ultimately show ?case
    unfolding represents_iff using r c lr lc by (auto simp: lookup_update_other)
qed

lemma represents_bad:
  "represents h B r x \<Longrightarrow> B' \<subseteq> B \<union> {a. length h \<le> a} \<Longrightarrow> represents h B' r x"
proof (induction x arbitrary: r)
  case (TermNode i n cs)
  from TermNode.prems(1) obtain c rs where
    r: "r \<notin> B" and lr: "lookup h r = Some (TermCell i n c)" and c: "c \<notin> B"
    and lc: "lookup h c = Some (ArrayCell rs)" and a: "list_all2 (represents h B) rs cs"
    unfolding represents_iff by blast
  have "list_all2 (represents h B') rs cs"
    using a TermNode.IH TermNode.prems(2)
    by (auto simp: list_all2_conv_all_nth)
  moreover have "r \<notin> B'" "c \<notin> B'"
    using r c lookup_Some_less [OF lr] lookup_Some_less [OF lc] TermNode.prems(2) by auto
  ultimately show ?case
    unfolding represents_iff using lr lc by blast
qed

lemma keptAt_prefix: "keptAt h B ro xo \<Longrightarrow> prefix h h' \<Longrightarrow> keptAt h' B ro xo"
  by (auto simp: keptAt_def split: option.splits intro: represents_prefix)

lemma keptAt_map_filter:
  "list_all2 (keptAt h B) ros xos \<Longrightarrow>
   list_all2 (represents h B) (List.map_filter (\<lambda>x. x) ros) (List.map_filter (\<lambda>x. x) xos)"
  by (induction rule: list_all2_induct)
     (auto simp: keptAt_def split: option.splits)

lemma prefix_update_beyond:
  "prefix h xs \<Longrightarrow> length h \<le> t \<Longrightarrow> prefix h (xs[t := v])"
  by (auto simp: prefix_def list_update_append)

lemma depth_children: "depth (TermNode i n cs) \<le> Suc k \<Longrightarrow> x \<in> set cs \<Longrightarrow> depth x \<le> k"
proof (induction cs)
  case Nil
  then show ?case by simp
next
  case (Cons c cs)
  then show ?case by (auto simp: max_def split: if_splits)
qed

lemma mapMatch_ok:
  assumes P: "\<And>h r x B. represents h B r x \<Longrightarrow> depth x \<le> k \<Longrightarrow> B \<subseteq> {..<length h} \<Longrightarrow>
      \<exists>h'. matchTermsForFilter k fv h r
             = Some (h', map_option (\<lambda>_. length h) (getFilterMatcher fv x)) \<and>
           prefix h h' \<and>
           (\<forall>x'. getFilterMatcher fv x = Some x' \<longrightarrow> represents h' B (length h) x')"
  shows "list_all2 (represents h B) rs xs \<Longrightarrow> (\<forall>x\<in>set xs. depth x \<le> k) \<Longrightarrow>
         B \<subseteq> {..<length h} \<Longrightarrow>
         \<exists>h' ros. mapMatch k fv h rs = Some (h', ros) \<and> prefix h h' \<and>
           list_all2 (keptAt h' B) ros (map (getFilterMatcher fv) xs)"
proof (induction rs arbitrary: xs h)
  case Nil
  then show ?case by simp
next
  case (Cons r rs xs0)
  from Cons.prems(1) obtain x xs where
    xs0: "xs0 = x # xs" and rx: "represents h B r x" and rest: "list_all2 (represents h B) rs xs"
    by (auto simp: list_all2_Cons1)
  have d: "depth x \<le> k" using Cons.prems(2) xs0 by simp
  from P [OF rx d Cons.prems(3)]
  obtain h1 where
    m: "matchTermsForFilter k fv h r
          = Some (h1, map_option (\<lambda>_. length h) (getFilterMatcher fv x))"
    and p1: "prefix h h1"
    and r1: "\<forall>x'. getFilterMatcher fv x = Some x' \<longrightarrow> represents h1 B (length h) x'"
    by auto
  have k1: "keptAt h1 B (map_option (\<lambda>_. length h) (getFilterMatcher fv x))
              (getFilterMatcher fv x)"
    using r1 by (auto simp: keptAt_def split: option.splits)
  have a1: "list_all2 (represents h1 B) rs xs"
    using rest p1 by (auto simp: list_all2_conv_all_nth intro: represents_prefix)
  have b1: "B \<subseteq> {..<length h1}"
    using Cons.prems(3) p1 by (auto simp: prefix_def)
  have d': "\<forall>x\<in>set xs. depth x \<le> k" using Cons.prems(2) xs0 by simp
  from Cons.IH [OF a1 d' b1]
  obtain h2 ros where
    mm: "mapMatch k fv h1 rs = Some (h2, ros)" and p2: "prefix h1 h2"
    and r2: "list_all2 (keptAt h2 B) ros (map (getFilterMatcher fv) xs)"
    by auto
  have "prefix h h2" using p1 p2 by (rule prefix_order.trans)
  moreover have "keptAt h2 B (map_option (\<lambda>_. length h) (getFilterMatcher fv x))
                   (getFilterMatcher fv x)"
    using k1 p2 by (rule keptAt_prefix)
  ultimately show ?case
    using m mm r2 xs0 by simp
qed

lemma depth_pos: "0 < depth x"
  by (cases x) simp

lemma lookup_snoc_last: "lookup (h @ [c]) (length h) = Some c"
  by (simp add: lookup_def)

lemma lookup_update_same: "t < length h \<Longrightarrow> lookup (h[t := v]) t = Some v"
  by (simp add: lookup_def)

lemma matchTermsForFilter_ok:
  assumes fv: "fv \<noteq> []"
  shows "represents h B r x \<Longrightarrow> depth x \<le> k \<Longrightarrow> B \<subseteq> {..<length h} \<Longrightarrow>
         \<exists>h'. matchTermsForFilter k fv h r
                = Some (h', map_option (\<lambda>_. length h) (getFilterMatcher fv x)) \<and>
              prefix h h' \<and>
              (\<forall>x'. getFilterMatcher fv x = Some x' \<longrightarrow> represents h' B (length h) x') \<and>
              (children x \<noteq> [] \<longrightarrow>
                 (\<exists>a. length h \<le> a \<and>
                      lookup h' (length h) = Some (TermCell (termId x) (name x) a)))"
proof (induction k arbitrary: h B r x)
  case 0
  then show ?case using depth_pos [of x] by simp
next
  case (Suc k)
  obtain i n cs where x: "x = TermNode i n cs" by (cases x)
  from Suc.prems(1) obtain c rs where
    r: "r \<notin> B" and lr: "lookup h r = Some (TermCell i n c)" and c: "c \<notin> B"
    and lc: "lookup h c = Some (ArrayCell rs)" and a: "list_all2 (represents h B) rs cs"
    unfolding x represents_iff by blast
  define t where "t = length h"
  define h1 where "h1 = h @ [TermCell i n c]"
  define nameMatch where
    "nameMatch = (- 1 \<noteq> indexOf (toLowerCase n) (toLowerCase fv))"
  have nm: "nameMatch = sublist (toLowerCase fv) (toLowerCase n)"
    unfolding nameMatch_def using indexOf_sublist [of "toLowerCase n" "toLowerCase fv"] by auto
  have p1: "prefix h h1" by (simp add: h1_def)
  have lc1: "lookup h1 c = Some (ArrayCell rs)" using lookup_prefix [OF p1 lc] .
  have lt1: "lookup h1 t = Some (TermCell i n c)"
    unfolding h1_def t_def by (rule lookup_snoc_last)
  have tB: "t \<notin> B" using Suc.prems(3) by (auto simp: t_def)
  have pure: "getFilterMatcher fv x =
      (if nameMatch \<or> List.map_filter (getFilterMatcher fv) cs \<noteq> []
       then Some (TermNode i n (List.map_filter (getFilterMatcher fv) cs)) else None)"
    unfolding x getFilterMatcher_unfold [OF fv] nm by (simp add: Let_def)
  have sel: "children x = cs" "termId x = i" "name x = n"
    using x by simp_all
  show ?case
  proof (cases "rs = []")
    case True
    then have cs: "cs = []" using a by simp
    have run: "matchTermsForFilter (Suc k) fv h r =
                 (if nameMatch then Some (h1, Some t) else Some (h1, None))"
      using fv lr lc1 True
      by (simp add: Let_def h1_def [symmetric] t_def [symmetric] nameMatch_def)
    have rep: "represents h1 B t (TermNode i n [])"
      unfolding represents_iff using tB lt1 c lc1 True by simp
    show ?thesis
      using run rep p1
      by (simp add: pure cs t_def sel del: matchTermsForFilter.simps represents.simps)
  next
    case False
    define B1 where "B1 = insert t B"
    have a1: "list_all2 (represents h1 B1) rs cs"
    proof -
      have "represents h B1 r' x'" if "represents h B r' x'" for r' x'
        using that by (rule represents_bad) (auto simp: B1_def t_def)
      then have "represents h1 B1 r' x'" if "represents h B r' x'" for r' x'
        using that p1 by (blast intro: represents_prefix)
      then show ?thesis using a by (auto simp: list_all2_conv_all_nth)
    qed
    have d1: "\<forall>y\<in>set cs. depth y \<le> k"
      using Suc.prems(2) depth_children unfolding x by blast
    have b1: "B1 \<subseteq> {..<length h1}"
      using Suc.prems(3) by (auto simp: B1_def h1_def t_def)
    have IH: "\<And>h r x B. represents h B r x \<Longrightarrow> depth x \<le> k \<Longrightarrow> B \<subseteq> {..<length h} \<Longrightarrow>
      \<exists>h'. matchTermsForFilter k fv h r
             = Some (h', map_option (\<lambda>_. length h) (getFilterMatcher fv x)) \<and>
           prefix h h' \<and>
           (\<forall>x'. getFilterMatcher fv x = Some x' \<longrightarrow> represents h' B (length h) x')"
      using Suc.IH by blast
    from mapMatch_ok [OF IH a1 d1 b1]
    obtain h2 ros where
      mm: "mapMatch k fv h1 rs = Some (h2, ros)" and p2: "prefix h1 h2"
      and k2: "list_all2 (keptAt h2 B1) ros (map (getFilterMatcher fv) cs)"
      by blast
    define kept where "kept = List.map_filter (\<lambda>x. x) ros"
    define cs' where "cs' = List.map_filter (getFilterMatcher fv) cs"
    define h3 where "h3 = (h2 @ [ArrayCell kept])[t := TermCell i n (length h2)]"
    have kc: "list_all2 (represents h2 B1) kept cs'"
      using keptAt_map_filter [OF k2] by (simp add: kept_def cs'_def map_filter_id_map)
    have len: "(0 < length kept) = (cs' \<noteq> [])"
      using list_all2_lengthD [OF kc] by auto
    have run: "matchTermsForFilter (Suc k) fv h r =
                 (if nameMatch \<or> cs' \<noteq> [] then Some (h3, Some t) else Some (h3, None))"
      using fv lr lc1 False mm len
      by (simp add: Let_def h1_def [symmetric] t_def [symmetric] nameMatch_def
          kept_def [symmetric] h3_def [symmetric])
    have tl: "t < length h2" using p2 by (auto simp: prefix_def h1_def t_def)
    have p3: "prefix h h3"
      unfolding h3_def
    proof (rule prefix_update_beyond)
      show "prefix h (h2 @ [ArrayCell kept])"
        using p1 p2 by (auto simp: prefix_def)
      show "length h \<le> t" by (simp add: t_def)
    qed
    have l3t: "lookup h3 t = Some (TermCell i n (length h2))"
      unfolding h3_def using tl by (simp add: lookup_update_same)
    have l3a: "lookup h3 (length h2) = Some (ArrayCell kept)"
      unfolding h3_def using tl by (simp add: lookup_update_other lookup_snoc_last)
    have aB: "length h2 \<notin> B"
      using Suc.prems(3) tl by (auto simp: t_def)
    have kc3: "list_all2 (represents h3 B) kept cs'"
    proof -
      have "represents h3 B r' x'" if q: "represents h2 B1 r' x'" for r' x'
      proof -
        have "represents (h2 @ [ArrayCell kept]) B1 r' x'"
          using q by (rule represents_prefix) simp
        then have "represents h3 B1 r' x'"
          unfolding h3_def by (rule represents_update) (simp add: B1_def)
        then show ?thesis
          by (rule represents_bad) (auto simp: B1_def)
      qed
      then show ?thesis using kc by (auto simp: list_all2_conv_all_nth)
    qed
    have rep: "represents h3 B t (TermNode i n cs')"
      unfolding represents_iff using tB l3t aB l3a kc3 by blast
    have fresh: "length h \<le> length h2" using tl by (simp add: t_def)
    show ?thesis
      using run rep p3 l3t fresh
      by (auto simp: pure cs'_def [symmetric] t_def sel
               simp del: matchTermsForFilter.simps represents.simps)
  qed
qed

lemma getFilterMatcher_kept:
  assumes "filterValue \<noteq> []"
  shows "(getFilterMatcher filterValue t \<noteq> None) =
           (sublist (toLowerCase filterValue) (toLowerCase (name t)) \<or>
            (\<exists>c\<in>set (children t). getFilterMatcher filterValue c \<noteq> None))
         \<and> (\<forall>t'. getFilterMatcher filterValue t = Some t' \<longrightarrow>
               termId t' = termId t \<and> name t' = name t \<and>
               children t' = List.map_filter (getFilterMatcher filterValue) (children t))"
  using assms
  by (cases t)
     (auto simp: getFilterMatcher_unfold Let_def map_filter_nonempty
           simp del: getFilterMatcher.simps)

text \<open>
  C10. For a non-empty filter string and a store that holds a term tree at a reference, the
  filter returns (given a depth bound that covers the tree) and leaves every cell of the
  original store as it was. It keeps the term exactly when the lower-cased name contains
  the lower-cased filter string or the filter keeps one of the children. The term it
  returns is a new object with the id and the name of the original and, as children, what
  the filter keeps of the original's children, in order; when the original has children,
  the children array of the new object is a new array.
\<close>

theorem matchTermsForFilter_keeps:
  assumes "filterValue \<noteq> []"
    and "represents h {} r t"
    and "depth t \<le> k"
  shows "\<exists>h' res.
           matchTermsForFilter k filterValue h r = Some (h', res) \<and>
           prefix h h' \<and>
           (res \<noteq> None) =
             (sublist (toLowerCase filterValue) (toLowerCase (name t)) \<or>
              (\<exists>c\<in>set (children t). getFilterMatcher filterValue c \<noteq> None)) \<and>
           (\<forall>r'. res = Some r' \<longrightarrow>
              r' = length h \<and>
              represents h' {} r'
                (TermNode (termId t) (name t)
                   (List.map_filter (getFilterMatcher filterValue) (children t))) \<and>
              (children t \<noteq> [] \<longrightarrow>
                 (\<exists>a. length h \<le> a \<and>
                      lookup h' r' = Some (TermCell (termId t) (name t) a))))"
proof -
  from matchTermsForFilter_ok [OF assms(1) assms(2) assms(3)]
  obtain h' where
    run: "matchTermsForFilter k filterValue h r
            = Some (h', map_option (\<lambda>_. length h) (getFilterMatcher filterValue t))"
    and p: "prefix h h'"
    and rep: "\<forall>x'. getFilterMatcher filterValue t = Some x' \<longrightarrow> represents h' {} (length h) x'"
    and fresh: "children t \<noteq> [] \<longrightarrow>
                 (\<exists>a. length h \<le> a \<and>
                      lookup h' (length h) = Some (TermCell (termId t) (name t) a))"
    by auto
  note pure = getFilterMatcher_kept [OF assms(1), of t]
  have shape: "x' = TermNode (termId t) (name t)
                      (List.map_filter (getFilterMatcher filterValue) (children t))"
    if "getFilterMatcher filterValue t = Some x'" for x'
    using pure that by (cases x') auto
  show ?thesis
  proof (rule exI, rule exI, intro conjI allI impI)
    show "matchTermsForFilter k filterValue h r
            = Some (h', map_option (\<lambda>_. length h) (getFilterMatcher filterValue t))"
      by (rule run)
    show "prefix h h'" by (rule p)
    show "(map_option (\<lambda>_. length h) (getFilterMatcher filterValue t) \<noteq> None) =
             (sublist (toLowerCase filterValue) (toLowerCase (name t)) \<or>
              (\<exists>c\<in>set (children t). getFilterMatcher filterValue c \<noteq> None))"
      using pure by simp
  next
    fix r'
    assume s: "map_option (\<lambda>_. length h) (getFilterMatcher filterValue t) = Some r'"
    then obtain x' where x': "getFilterMatcher filterValue t = Some x'" and r': "r' = length h"
      by auto
    show "r' = length h" by (rule r')
    show "represents h' {} r'
            (TermNode (termId t) (name t)
               (List.map_filter (getFilterMatcher filterValue) (children t)))"
      using rep x' shape [OF x'] r' by auto
  next
    fix r'
    assume s: "map_option (\<lambda>_. length h) (getFilterMatcher filterValue t) = Some r'"
      and c: "children t \<noteq> []"
    from s have "r' = length h" by auto
    then show "\<exists>a. length h \<le> a \<and> lookup h' r' = Some (TermCell (termId t) (name t) a)"
      using fresh c by simp
  qed
qed

theorem matchTermsForFilter_keeps_witness:
  "''ab'' \<noteq> [] \<and>
   represents [TermCell 1 ''x'' 1, ArrayCell [2, 4], TermCell 2 ''cAB'' 3, ArrayCell [],
          TermCell 3 ''q'' 5, ArrayCell []] {} 0
     (TermNode 1 ''x'' [TermNode 2 ''cAB'' [], TermNode 3 ''q'' []]) \<and>
   depth (TermNode 1 ''x'' [TermNode 2 ''cAB'' [], TermNode 3 ''q'' []]) \<le> 2 \<and>
   matchTermsForFilter 2 ''ab''
     [TermCell 1 ''x'' 1, ArrayCell [2, 4], TermCell 2 ''cAB'' 3, ArrayCell [],
      TermCell 3 ''q'' 5, ArrayCell []] 0
   = Some ([TermCell 1 ''x'' 1, ArrayCell [2, 4], TermCell 2 ''cAB'' 3, ArrayCell [],
            TermCell 3 ''q'' 5, ArrayCell [],
            TermCell 1 ''x'' 9, TermCell 2 ''cAB'' 3, TermCell 3 ''q'' 5, ArrayCell [7]],
           Some 6) \<and>
   prefix [TermCell 1 ''x'' 1, ArrayCell [2, 4], TermCell 2 ''cAB'' 3, ArrayCell [],
           TermCell 3 ''q'' 5, ArrayCell []]
          [TermCell 1 ''x'' 1, ArrayCell [2, 4], TermCell 2 ''cAB'' 3, ArrayCell [],
           TermCell 3 ''q'' 5, ArrayCell [],
           TermCell 1 ''x'' 9, TermCell 2 ''cAB'' 3, TermCell 3 ''q'' 5, ArrayCell [7]]"
proof -
  let ?h = "[TermCell 1 ''x'' 1, ArrayCell [2, 4], TermCell 2 ''cAB'' 3, ArrayCell [],
             TermCell 3 ''q'' 5, ArrayCell []]"
  let ?t = "TermNode 1 ''x'' [TermNode 2 ''cAB'' [], TermNode 3 ''q'' []]"
  have a1: "''ab'' \<noteq> []" by simp
  have a2: "represents ?h {} 0 ?t" by code_simp
  have a3: "depth ?t \<le> 2" by code_simp
  have e: "matchTermsForFilter 2 ''ab'' ?h 0
             = Some (?h @ [TermCell 1 ''x'' 9, TermCell 2 ''cAB'' 3, TermCell 3 ''q'' 5,
                           ArrayCell [7]], Some 6)"
    by code_simp
  from matchTermsForFilter_keeps [OF a1 a2 a3]
  obtain h' res where
    "matchTermsForFilter 2 ''ab'' ?h 0 = Some (h', res)" and "prefix ?h h'"
    by blast
  with e have p: "prefix ?h (?h @ [TermCell 1 ''x'' 9, TermCell 2 ''cAB'' 3, TermCell 3 ''q'' 5,
                           ArrayCell [7]])"
    by simp
  from a1 a2 a3 e p show ?thesis by simp
qed

section \<open>Properties of the paste handler\<close>

subsection \<open>The example browser and collaborators\<close>

lemma exampleBrowser_simps:
  "parseHTML exampleBrowser = exampleParse"
  "serializeHTML exampleBrowser = exampleSerialize"
  "cssText exampleBrowser = (\<lambda>s. s)"
  "matchesSelector exampleBrowser = hasTag"
  "normalizeString exampleBrowser = Some (\<lambda>s. s)"
  by (simp_all add: exampleBrowser_def)

lemma exampleCollaborators_simps:
  "parseWithGrammar exampleCollaborators = (\<lambda>s. [Block ''core/freeform'' [(''content'', s)] []])"
  "markdownConverter exampleCollaborators = (\<lambda>s. ''<p>'' @ s @ ''</p>'')"
  "isPlain exampleCollaborators = (\<lambda>s. CHR ''<'' \<notin> set s)"
  "shortcodeConverter exampleCollaborators = (\<lambda>s. [PieceHTML s])"
  "isInlineContent exampleCollaborators = (\<lambda>s t. False)"
  "deepFilterHTML exampleCollaborators = (\<lambda>s fs sch. s)"
  "removeInvalidHTML exampleCollaborators = (\<lambda>s sch. s)"
  "normaliseBlocks exampleCollaborators = (\<lambda>s. s)"
  "getPhrasingContentSchema exampleCollaborators = (\<lambda>c. [])"
  "getBlockContentSchema exampleCollaborators = (\<lambda>ts sch b. [])"
  by (simp_all add: exampleCollaborators_def)

subsection \<open>Default styles\<close>

lemma defaultStyles_entries: "\<not> isl (getStylesEntries defaultStyles)"
  by code_simp

lemma getStylesEntries_empty: "getStylesEntries [] = Inr []"
  by (simp add: getStylesEntries_def split_def)

lemma getNonDefaultStyles_empty: "getNonDefaultStyles d [] = []"
  by (simp add: getNonDefaultStyles_def)

text \<open>An element without style declarations gets an empty style attribute.\<close>

lemma removeDefaultStyles_no_style:
  assumes "styleText br as = []"
  shows "removeDefaultStyles br as = Inr (setProp ''style'' (cssText br []) as)"
proof -
  obtain d where d: "getStylesEntries defaultStyles = Inr d"
    using defaultStyles_entries by (cases "getStylesEntries defaultStyles") auto
  show ?thesis
    using assms
    by (simp add: removeDefaultStyles_def d getStylesEntries_empty getNonDefaultStyles_empty
        entries_def fromEntries_def fromObjToString_def)
qed

text \<open>An error in the entries of the element's style is the result.\<close>

lemma removeDefaultStyles_raises:
  assumes "getStylesEntries (styleText br as) = Inl e"
  shows "removeDefaultStyles br as = Inl e"
proof -
  obtain d where d: "getStylesEntries defaultStyles = Inr d"
    using defaultStyles_entries by (cases "getStylesEntries defaultStyles") auto
  show ?thesis using assms by (simp add: removeDefaultStyles_def d)
qed

lemma filterInlineHTML_example:
  assumes "applyToAllSuccessors_removeDefaultStyles exampleBrowser (exampleParse h) = Inr ns"
  shows "filterInlineHTML exampleCollaborators exampleBrowser h pws =
           Inr (exampleSerialize (applyToAllSuccessors_unwrap exampleBrowser False
                  (exampleParse (exampleSerialize ns))))"
  using assms
  by (simp add: filterInlineHTML_def removeDefaultStylesFromAllElements_def
      unwrapSpansWithNoStylesAndAtrrs_def exampleBrowser_simps exampleCollaborators_simps
      Let_def)

subsection \<open>Block delimiters\<close>



subsection \<open>The type of the result\<close>

lemma inlineResult_cases:
  "(\<exists>x. inlineResult r = Inr (Str x)) \<or> inlineResult r = Inl TypeError"
  by (cases r) (auto simp: inlineResult_def intro: error.exhaust)

lemma mode_INLINE_stays: "modeOf inp = INLINE \<Longrightarrow> snd (markdownStep env br inp) = INLINE"
  by (simp add: markdownStep_def Let_def)

lemma mode_BLOCKS_stays: "modeOf inp = BLOCKS \<Longrightarrow> snd (markdownStep env br inp) = BLOCKS"
  by (simp add: markdownStep_def Let_def)


text \<open>
  With mode INLINE the handler returns what the inline filter chain returns on the working
  markup: a string, unless the chain raises the \<open>TypeError\<close> of the style entries; it
  never returns blocks. With mode BLOCKS the handler returns a sequence of blocks.
\<close>

lemma pasteHandler_result_type:
  "(modeOf inp = INLINE \<longrightarrow>
      pasteHandler env br inp =
        inlineResult (filterInlineHTML env br (fst (markdownStep env br inp))
                        (preserveWhiteSpace inp)) \<and>
      ((\<exists>x. pasteHandler env br inp = Inr (Str x)) \<or> pasteHandler env br inp = Inl TypeError))
   \<and> (modeOf inp = BLOCKS \<longrightarrow> (\<exists>bs. pasteHandler env br inp = Inr (Blocks bs)))"
proof (intro conjI impI)
  assume m: "modeOf inp = INLINE"
  show a: "pasteHandler env br inp =
        inlineResult (filterInlineHTML env br (fst (markdownStep env br inp))
                        (preserveWhiteSpace inp))"
    using m mode_INLINE_stays [OF m, of env br] by (simp add: pasteHandler_def Let_def)
  show "(\<exists>x. pasteHandler env br inp = Inr (Str x)) \<or> pasteHandler env br inp = Inl TypeError"
    unfolding a by (rule inlineResult_cases)
next
  assume m: "modeOf inp = BLOCKS"
  show "\<exists>bs. pasteHandler env br inp = Inr (Blocks bs)"
    using m mode_BLOCKS_stays [OF m, of env br]
    by (auto simp: pasteHandler_def Let_def split: list.splits)
qed

lemma pasteHandler_result_type_example:
  "modeOf \<lparr> HTML = Some ''<p>Hi</p>'', plainText = None, mode = Some INLINE,
             tagName = None, preserveWhiteSpace = None \<rparr> = INLINE \<and>
   pasteHandler exampleCollaborators exampleBrowser
     \<lparr> HTML = Some ''<p>Hi</p>'', plainText = None, mode = Some INLINE,
       tagName = None, preserveWhiteSpace = None \<rparr> = Inr (Str ''Hi'') \<and>
   modeOf \<lparr> HTML = Some ''<foo>bar</foo>'', plainText = None, mode = Some BLOCKS,
             tagName = None, preserveWhiteSpace = None \<rparr> = BLOCKS \<and>
   (\<exists>bs. pasteHandler exampleCollaborators exampleBrowser
     \<lparr> HTML = Some ''<foo>bar</foo>'', plainText = None, mode = Some BLOCKS,
       tagName = None, preserveWhiteSpace = None \<rparr> = Inr (Blocks bs))"
proof -
  let ?A = "\<lparr> HTML = Some ''<p>Hi</p>'', plainText = None, mode = Some INLINE,
               tagName = None, preserveWhiteSpace = None \<rparr>"
  let ?B = "\<lparr> HTML = Some ''<foo>bar</foo>'', plainText = None, mode = Some BLOCKS,
               tagName = None, preserveWhiteSpace = None \<rparr>"
  have mA: "modeOf ?A = INLINE" by (simp add: modeOf_def)
  have mB: "modeOf ?B = BLOCKS" by (simp add: modeOf_def)
  have w: "fst (markdownStep exampleCollaborators exampleBrowser ?A) = ''<p>Hi</p>''"
    by code_simp
  have p: "exampleParse ''<p>Hi</p>'' = [Element ''p'' [] [TextNode ''Hi'']]"
    by code_simp
  have d: "applyToAllSuccessors_removeDefaultStyles exampleBrowser (exampleParse ''<p>Hi</p>'')
             = Inr [Element ''p'' [(''style'', [])] [TextNode ''Hi'']]"
    unfolding p
    by (simp add: removeDefaultStyles_no_style styleText_def exampleBrowser_simps)
  have u: "exampleSerialize (applyToAllSuccessors_unwrap exampleBrowser False
             (exampleParse (exampleSerialize [Element ''p'' [(''style'', [])] [TextNode ''Hi'']])))
           = ''Hi''"
    by code_simp
  have f: "filterInlineHTML exampleCollaborators exampleBrowser ''<p>Hi</p>'' None = Inr ''Hi''"
    using filterInlineHTML_example [OF d, of None] unfolding u .
  from pasteHandler_result_type [of ?A exampleCollaborators exampleBrowser] mA
  have rA: "pasteHandler exampleCollaborators exampleBrowser ?A = Inr (Str ''Hi'')"
    by (simp add: w f inlineResult_def)
  from pasteHandler_result_type [of ?B exampleCollaborators exampleBrowser] mB
  have rB: "\<exists>bs. pasteHandler exampleCollaborators exampleBrowser ?B = Inr (Blocks bs)"
    by blast
  from mA rA mB rB show ?thesis by blast
qed


subsection \<open>The Markdown step\<close>

text \<open>
  C3. When the mode is AUTO, the plain text is not empty, the normalized markup is empty or
  plain, the plain text has no line feed and does not begin with \<open><p>\<close>, and the converted
  markup begins with \<open><p>\<close>, the Markdown step sets the mode to INLINE and takes the
  converted markup as the working markup; the handler, when it has not already returned
  the grammar parser's result for a block delimiter, then returns the result of the inline
  filter chain on the converted markup. For the input with empty markup and plain text
  \<open>hello world\<close>: when the converter gives one paragraph, the browser parses and
  serializes that paragraph as written and the content filters leave it as it is, the
  handler returns the string \<open>hello world\<close>.
\<close>

theorem markdownStep_inline:
  "(modeOf inp = AUTO \<and> plainTextOf inp \<noteq> [] \<and>
    (normalizedHTML br inp = [] \<or> isPlain env (normalizedHTML br inp)) \<and>
    indexOf (plainTextOf inp) ''\<newline>'' = - 1 \<and>
    indexOf (plainTextOf inp) ''<p>'' \<noteq> 0 \<and>
    indexOf (markdownConverter env (plainTextOf inp)) ''<p>'' = 0
    \<longrightarrow>
      markdownStep env br inp = (markdownConverter env (plainTextOf inp), INLINE) \<and>
      (indexOf (delimiterContent inp) ''<!-- wp:'' = - 1 \<longrightarrow>
         pasteHandler env br inp =
           inlineResult (filterInlineHTML env br (markdownConverter env (plainTextOf inp))
                           (preserveWhiteSpace inp))))
   \<and>
   (markdownConverter env ''hello world'' = ''<p>hello world</p>'' \<and>
    (case normalizeString br of None \<Rightarrow> True | Some f \<Rightarrow> f [] = []) \<and>
    parseHTML br ''<p>hello world</p>'' = [Element ''p'' [] [TextNode ''hello world'']] \<and>
    cssText br [] = [] \<and>
    serializeHTML br [Element ''p'' [(''style'', [])] [TextNode ''hello world'']]
      = ''<p style=\"\">hello world</p>'' \<and>
    (\<forall>fs. deepFilterHTML env ''<p style=\"\">hello world</p>'' fs None
            = ''<p style=\"\">hello world</p>'') \<and>
    parseHTML br ''<p style=\"\">hello world</p>''
      = [Element ''p'' [(''style'', [])] [TextNode ''hello world'']] \<and>
    serializeHTML br [TextNode ''hello world''] = ''hello world''
    \<longrightarrow>
      pasteHandler env br
        \<lparr> HTML = Some [], plainText = Some ''hello world'', mode = Some AUTO,
          tagName = t, preserveWhiteSpace = None \<rparr> = Inr (Str ''hello world''))"
proof (intro conjI impI)
  assume h: "modeOf inp = AUTO \<and> plainTextOf inp \<noteq> [] \<and>
    (normalizedHTML br inp = [] \<or> isPlain env (normalizedHTML br inp)) \<and>
    indexOf (plainTextOf inp) ''\<newline>'' = - 1 \<and>
    indexOf (plainTextOf inp) ''<p>'' \<noteq> 0 \<and>
    indexOf (markdownConverter env (plainTextOf inp)) ''<p>'' = 0"
  then show s: "markdownStep env br inp = (markdownConverter env (plainTextOf inp), INLINE)"
    by (auto simp: markdownStep_def Let_def)
  assume d: "indexOf (delimiterContent inp) ''<!-- wp:'' = - 1"
  from h d show "pasteHandler env br inp =
        inlineResult (filterInlineHTML env br (markdownConverter env (plainTextOf inp))
                        (preserveWhiteSpace inp))"
    by (simp add: pasteHandler_def Let_def s)
next
  let ?inp = "\<lparr> HTML = Some [], plainText = Some ''hello world'', mode = Some AUTO,
          tagName = t, preserveWhiteSpace = None \<rparr>"
  let ?p = "Element ''p'' [(''style'', [])] [TextNode ''hello world'']"
  assume h: "markdownConverter env ''hello world'' = ''<p>hello world</p>'' \<and>
    (case normalizeString br of None \<Rightarrow> True | Some f \<Rightarrow> f [] = []) \<and>
    parseHTML br ''<p>hello world</p>'' = [Element ''p'' [] [TextNode ''hello world'']] \<and>
    cssText br [] = [] \<and>
    serializeHTML br [?p] = ''<p style=\"\">hello world</p>'' \<and>
    (\<forall>fs. deepFilterHTML env ''<p style=\"\">hello world</p>'' fs None
            = ''<p style=\"\">hello world</p>'') \<and>
    parseHTML br ''<p style=\"\">hello world</p>'' = [?p] \<and>
    serializeHTML br [TextNode ''hello world''] = ''hello world''"
  have sb: "stripBoilerplate [] = []" by code_simp
  have n: "normalizedHTML br ?inp = []"
    using h by (simp add: normalizedHTML_def htmlOf_def sb split: option.splits)
  have c: "delimiterContent ?inp = ''hello world''"
    by (simp add: delimiterContent_def htmlOf_def plainTextOf_def sb)
  have i1: "indexOf ''hello world'' ''<!-- wp:'' = - 1" by code_simp
  have i2: "indexOf ''hello world'' ''\<newline>'' = - 1" by code_simp
  have i3: "indexOf ''hello world'' ''<p>'' \<noteq> 0" by code_simp
  have i4: "indexOf ''<p>hello world</p>'' ''<p>'' = 0" by code_simp
  have s: "markdownStep env br ?inp = (''<p>hello world</p>'', INLINE)"
    using h i2 i3 i4 by (simp add: markdownStep_def Let_def n plainTextOf_def modeOf_def)
  have d: "removeDefaultStylesFromAllElements br ''<p>hello world</p>''
             = Inr ''<p style=\"\">hello world</p>''"
    using h
    by (simp add: removeDefaultStylesFromAllElements_def removeDefaultStyles_no_style
        styleText_def)
  have us: "styleText br [(''style'', [])] = []"
    using h by (simp add: styleText_def)
  have u: "unwrapSpansWithNoStylesAndAtrrs br ''<p style=\"\">hello world</p>'' = ''hello world''"
    using h by (simp add: unwrapSpansWithNoStylesAndAtrrs_def hasNoStylesOrAttrs_def us)
  have f: "filterInlineHTML env br ''<p>hello world</p>'' None = Inr ''hello world''"
    using h by (simp add: filterInlineHTML_def d u Let_def)
  show "pasteHandler env br ?inp = Inr (Str ''hello world'')"
    using i1 by (simp add: pasteHandler_def Let_def c s f inlineResult_def modeOf_def)
qed


theorem markdownStep_inline_witness:
  "modeOf \<lparr> HTML = Some [], plainText = Some ''hello world'', mode = Some AUTO,
             tagName = None, preserveWhiteSpace = None \<rparr> = AUTO \<and>
   indexOf (delimiterContent \<lparr> HTML = Some [], plainText = Some ''hello world'',
             mode = Some AUTO, tagName = None, preserveWhiteSpace = None \<rparr>) ''<!-- wp:'' = - 1 \<and>
   markdownStep exampleCollaborators exampleBrowser
     \<lparr> HTML = Some [], plainText = Some ''hello world'', mode = Some AUTO,
       tagName = None, preserveWhiteSpace = None \<rparr> = (''<p>hello world</p>'', INLINE) \<and>
   pasteHandler exampleCollaborators exampleBrowser
     \<lparr> HTML = Some [], plainText = Some ''hello world'', mode = Some AUTO,
       tagName = None, preserveWhiteSpace = None \<rparr> = Inr (Str ''hello world'')"
proof -
  let ?inp = "\<lparr> HTML = Some [], plainText = Some ''hello world'', mode = Some AUTO,
                 tagName = None, preserveWhiteSpace = None \<rparr>"
  have g1: "modeOf ?inp = AUTO" by code_simp
  have g2: "plainTextOf ?inp \<noteq> []" by code_simp
  have g3: "normalizedHTML exampleBrowser ?inp = [] \<or>
            isPlain exampleCollaborators (normalizedHTML exampleBrowser ?inp)" by code_simp
  have g4: "indexOf (plainTextOf ?inp) ''\<newline>'' = - 1" by code_simp
  have g5: "indexOf (plainTextOf ?inp) ''<p>'' \<noteq> 0" by code_simp
  have g6: "indexOf (markdownConverter exampleCollaborators (plainTextOf ?inp)) ''<p>'' = 0"
    by code_simp
  have g7: "indexOf (delimiterContent ?inp) ''<!-- wp:'' = - 1" by code_simp
  have t: "plainTextOf ?inp = ''hello world''" by code_simp
  have h1: "markdownConverter exampleCollaborators ''hello world'' = ''<p>hello world</p>''"
    by code_simp
  have h2: "(case normalizeString exampleBrowser of None \<Rightarrow> True | Some f \<Rightarrow> f [] = [])"
    by (simp add: exampleBrowser_simps)
  have h3: "parseHTML exampleBrowser ''<p>hello world</p>''
              = [Element ''p'' [] [TextNode ''hello world'']]" by code_simp
  have h4: "cssText exampleBrowser [] = []" by (simp add: exampleBrowser_simps)
  have h5: "serializeHTML exampleBrowser [Element ''p'' [(''style'', [])] [TextNode ''hello world'']]
              = ''<p style=\"\">hello world</p>''" by code_simp
  have h6: "\<forall>fs. deepFilterHTML exampleCollaborators ''<p style=\"\">hello world</p>'' fs None
              = ''<p style=\"\">hello world</p>''"
    by (simp add: exampleCollaborators_simps)
  have h7: "parseHTML exampleBrowser ''<p style=\"\">hello world</p>''
              = [Element ''p'' [(''style'', [])] [TextNode ''hello world'']]" by code_simp
  have h8: "serializeHTML exampleBrowser [TextNode ''hello world''] = ''hello world''"
    by code_simp
  note inst = markdownStep_inline [of ?inp exampleBrowser exampleCollaborators None]
  from inst g1 g2 g3 g4 g5 g6
  have r1: "markdownStep exampleCollaborators exampleBrowser ?inp
              = (markdownConverter exampleCollaborators (plainTextOf ?inp), INLINE)"
    by blast
  from inst h1 h2 h3 h4 h5 h6 h7 h8
  have r2: "pasteHandler exampleCollaborators exampleBrowser ?inp = Inr (Str ''hello world'')"
    by blast
  from r1 have r1': "markdownStep exampleCollaborators exampleBrowser ?inp
                       = (''<p>hello world</p>'', INLINE)"
    unfolding t h1 .
  from g1 g7 r1' r2 show ?thesis by blast
qed

subsection \<open>The opaque-markup fallback\<close>

text \<open>
  C4. \<open>htmlToBlocks\<close> gives one result for each top-level element of the parsed markup,
  in order. For an element that no raw transform matches the result is a \<open>core/html\<close>
  block without children whose only attribute is the element's own serialized markup. In
  particular, when \<open><foo>bar</foo>\<close> parses to one element that serializes back to the
  same string and that no transform matches, the result is the one \<open>core/html\<close> block
  holding \<open><foo>bar</foo>\<close>.
\<close>

theorem htmlToBlocks_fallback:
  "length (htmlToBlocks env br html rawTransforms)
     = length (filter isElement (parseHTML br html)) \<and>
   (\<forall>i < length (filter isElement (parseHTML br html)).
      findTransform rawTransforms
        (\<lambda>t. rawIsMatch t (filter isElement (parseHTML br html) ! i)) = None \<longrightarrow>
      htmlToBlocks env br html rawTransforms ! i =
        Some (Block ''core/html''
                [(''content'', outerHTML br (filter isElement (parseHTML br html) ! i))] []))
   \<and>
   (parseHTML br ''<foo>bar</foo>'' = [Element ''foo'' [] [TextNode ''bar'']] \<and>
    serializeHTML br [Element ''foo'' [] [TextNode ''bar'']] = ''<foo>bar</foo>'' \<and>
    findTransform rawTransforms (\<lambda>t. rawIsMatch t (Element ''foo'' [] [TextNode ''bar''])) = None
    \<longrightarrow>
      htmlToBlocks env br ''<foo>bar</foo>'' rawTransforms =
        [Some (Block ''core/html'' [(''content'', ''<foo>bar</foo>'')] [])])"
proof (intro conjI allI impI)
  show "length (htmlToBlocks env br html rawTransforms)
          = length (filter isElement (parseHTML br html))"
    by (simp add: htmlToBlocks_def)
next
  fix i
  assume i: "i < length (filter isElement (parseHTML br html))"
    and n: "findTransform rawTransforms
              (\<lambda>t. rawIsMatch t (filter isElement (parseHTML br html) ! i)) = None"
  from i have "htmlToBlocks env br html rawTransforms ! i
                 = nodeToBlock env br rawTransforms (filter isElement (parseHTML br html) ! i)"
    by (simp add: htmlToBlocks_def)
  also have "\<dots> = Some (Block ''core/html''
                [(''content'', outerHTML br (filter isElement (parseHTML br html) ! i))] [])"
    using n by (simp add: nodeToBlock_def createBlock_def getBlockAttributes_def)
  finally show "htmlToBlocks env br html rawTransforms ! i =
        Some (Block ''core/html''
                [(''content'', outerHTML br (filter isElement (parseHTML br html) ! i))] [])" .
next
  assume "parseHTML br ''<foo>bar</foo>'' = [Element ''foo'' [] [TextNode ''bar'']] \<and>
    serializeHTML br [Element ''foo'' [] [TextNode ''bar'']] = ''<foo>bar</foo>'' \<and>
    findTransform rawTransforms (\<lambda>t. rawIsMatch t (Element ''foo'' [] [TextNode ''bar''])) = None"
  then show "htmlToBlocks env br ''<foo>bar</foo>'' rawTransforms =
        [Some (Block ''core/html'' [(''content'', ''<foo>bar</foo>'')] [])]"
    by (simp add: htmlToBlocks_def nodeToBlock_def createBlock_def getBlockAttributes_def
        outerHTML_def)
qed

theorem htmlToBlocks_fallback_witness:
  "parseHTML exampleBrowser ''<foo>bar</foo>'' = [Element ''foo'' [] [TextNode ''bar'']] \<and>
   serializeHTML exampleBrowser [Element ''foo'' [] [TextNode ''bar'']] = ''<foo>bar</foo>'' \<and>
   findTransform (getRawTransformations exampleCollaborators exampleBrowser)
     (\<lambda>t. rawIsMatch t (Element ''foo'' [] [TextNode ''bar''])) = None \<and>
   htmlToBlocks exampleCollaborators exampleBrowser ''<foo>bar</foo>''
     (getRawTransformations exampleCollaborators exampleBrowser)
   = [Some (Block ''core/html'' [(''content'', ''<foo>bar</foo>'')] [])]"
proof -
  have h1: "parseHTML exampleBrowser ''<foo>bar</foo>'' = [Element ''foo'' [] [TextNode ''bar'']]"
    by code_simp
  have h2: "serializeHTML exampleBrowser [Element ''foo'' [] [TextNode ''bar'']] = ''<foo>bar</foo>''"
    by code_simp
  have h3: "findTransform (getRawTransformations exampleCollaborators exampleBrowser)
              (\<lambda>t. rawIsMatch t (Element ''foo'' [] [TextNode ''bar''])) = None"
    by (simp add: findTransform_def getRawTransformations_def exampleCollaborators_def
        exampleBrowser_simps)
  from htmlToBlocks_fallback [of exampleCollaborators exampleBrowser _
         "getRawTransformations exampleCollaborators exampleBrowser"] h1 h2 h3
  have r: "htmlToBlocks exampleCollaborators exampleBrowser ''<foo>bar</foo>''
             (getRawTransformations exampleCollaborators exampleBrowser)
           = [Some (Block ''core/html'' [(''content'', ''<foo>bar</foo>'')] [])]"
    by blast
  from h1 h2 h3 r show ?thesis by blast
qed


subsection \<open>One block pasted as inline text\<close>

text \<open>
  C8, as amended. When the handler reaches the block pipeline with the mode still AUTO (no
  block delimiter in the content, the mode not switched to INLINE, and not one piece of
  inline content), the pipeline gives exactly one block, the type of the block supports
  \<open>__unstablePasteTextInline\<close>, and the plain text, trimmed of surrounding white space,
  is not empty and has no line feed, then the handler returns the string that
  \<open>removeInvalidHTML\<close> makes of the block's content under the phrasing-content schema.
\<close>

theorem pasteHandler_single_inline_block:
  assumes "indexOf (delimiterContent inp) ''<!-- wp:'' = - 1"
    and "snd (markdownStep env br inp) = AUTO"
    and "\<not> (length (shortcodeConverter env (fst (markdownStep env br inp))) \<le> 1 \<and>
            isInlineContent env (fst (markdownStep env br inp)) (tagName inp))"
    and "pasteBlocks env br (shortcodeConverter env (fst (markdownStep env br inp))) = [b]"
    and "hasBlockSupport env (blockName b) ''__unstablePasteTextInline'' False"
    and "trim (plainTextOf inp) \<noteq> []"
    and "indexOf (trim (plainTextOf inp)) ''\<newline>'' = - 1"
  shows "pasteHandler env br inp =
           Inr (Str (removeInvalidHTML env (getBlockContent env b)
                       (getPhrasingContentSchema env ''paste'')))"
proof -
  from assms(3)
  have g: "\<not> (\<not> 1 < length (shortcodeConverter env (fst (markdownStep env br inp))) \<and>
               isInlineContent env (fst (markdownStep env br inp)) (tagName inp))"
    by (simp add: not_less)
  show ?thesis
    using assms(1,2,4,5,6,7) g by (auto simp: pasteHandler_def Let_def)
qed

theorem pasteHandler_single_inline_block_witness:
  "indexOf (delimiterContent \<lparr> HTML = Some ''<p class=\"a\">x</p>'', plainText = Some ''x'',
      mode = Some AUTO, tagName = None, preserveWhiteSpace = None \<rparr>) ''<!-- wp:'' = - 1 \<and>
   markdownStep exampleCollaborators exampleBrowser
     \<lparr> HTML = Some ''<p class=\"a\">x</p>'', plainText = Some ''x'',
       mode = Some AUTO, tagName = None, preserveWhiteSpace = None \<rparr>
     = (''<p class=\"a\">x</p>'', AUTO) \<and>
   pasteBlocks exampleCollaborators exampleBrowser
     (shortcodeConverter exampleCollaborators ''<p class=\"a\">x</p>'')
     = [Block ''core/paragraph'' [(''content'', ''<p class=\"a\">x</p>'')] []] \<and>
   trim ''x'' \<noteq> [] \<and>
   pasteHandler exampleCollaborators exampleBrowser
     \<lparr> HTML = Some ''<p class=\"a\">x</p>'', plainText = Some ''x'',
       mode = Some AUTO, tagName = None, preserveWhiteSpace = None \<rparr>
     = Inr (Str ''<p class=\"a\">x</p>'')"
proof -
  let ?inp = "\<lparr> HTML = Some ''<p class=\"a\">x</p>'', plainText = Some ''x'',
                 mode = Some AUTO, tagName = None, preserveWhiteSpace = None \<rparr>"
  let ?b = "Block ''core/paragraph'' [(''content'', ''<p class=\"a\">x</p>'')] []"
  have s: "markdownStep exampleCollaborators exampleBrowser ?inp = (''<p class=\"a\">x</p>'', AUTO)"
    by code_simp
  have a1: "indexOf (delimiterContent ?inp) ''<!-- wp:'' = - 1" by code_simp
  have a2: "snd (markdownStep exampleCollaborators exampleBrowser ?inp) = AUTO"
    by (simp add: s)
  have a3: "\<not> (length (shortcodeConverter exampleCollaborators
                     (fst (markdownStep exampleCollaborators exampleBrowser ?inp))) \<le> 1 \<and>
               isInlineContent exampleCollaborators
                 (fst (markdownStep exampleCollaborators exampleBrowser ?inp)) (tagName ?inp))"
    by (simp add: exampleCollaborators_simps)
  have pb: "pasteBlocks exampleCollaborators exampleBrowser
              (shortcodeConverter exampleCollaborators ''<p class=\"a\">x</p>'') = [?b]"
    by code_simp
  have a4: "pasteBlocks exampleCollaborators exampleBrowser
              (shortcodeConverter exampleCollaborators
                 (fst (markdownStep exampleCollaborators exampleBrowser ?inp))) = [?b]"
    unfolding s fst_conv by (rule pb)
  have a5: "hasBlockSupport exampleCollaborators (blockName ?b) ''__unstablePasteTextInline'' False"
    by code_simp
  have a6: "trim (plainTextOf ?inp) \<noteq> []" by code_simp
  have a7: "indexOf (trim (plainTextOf ?inp)) ''\<newline>'' = - 1" by code_simp
  have t: "trim ''x'' \<noteq> []" by code_simp
  have c: "removeInvalidHTML exampleCollaborators (getBlockContent exampleCollaborators ?b)
             (getPhrasingContentSchema exampleCollaborators ''paste'') = ''<p class=\"a\">x</p>''"
    by code_simp
  have r: "pasteHandler exampleCollaborators exampleBrowser ?inp = Inr (Str ''<p class=\"a\">x</p>'')"
    using pasteHandler_single_inline_block [OF a1 a2 a3 a4 a5 a6 a7] unfolding c .
  from a1 s pb t r show ?thesis by blast
qed

text \<open>
  The claim with the untrimmed plain text fails: for a plain text of one space, which is
  not empty and has no line feed, the handler returns the block.
\<close>

theorem pasteHandler_single_inline_block_counterexample:
  "snd (markdownStep exampleCollaborators exampleBrowser
          \<lparr> HTML = Some ''<p class=\"a\">x</p>'', plainText = Some '' '',
            mode = Some AUTO, tagName = None, preserveWhiteSpace = None \<rparr>) = AUTO \<and>
   pasteBlocks exampleCollaborators exampleBrowser
     (shortcodeConverter exampleCollaborators
        (fst (markdownStep exampleCollaborators exampleBrowser
          \<lparr> HTML = Some ''<p class=\"a\">x</p>'', plainText = Some '' '',
            mode = Some AUTO, tagName = None, preserveWhiteSpace = None \<rparr>)))
     = [Block ''core/paragraph'' [(''content'', ''<p class=\"a\">x</p>'')] []] \<and>
   hasBlockSupport exampleCollaborators ''core/paragraph'' ''__unstablePasteTextInline'' False \<and>
   plainTextOf \<lparr> HTML = Some ''<p class=\"a\">x</p>'', plainText = Some '' '',
            mode = Some AUTO, tagName = None, preserveWhiteSpace = None \<rparr> \<noteq> [] \<and>
   indexOf (plainTextOf \<lparr> HTML = Some ''<p class=\"a\">x</p>'', plainText = Some '' '',
            mode = Some AUTO, tagName = None, preserveWhiteSpace = None \<rparr>) ''\<newline>'' = - 1 \<and>
   pasteHandler exampleCollaborators exampleBrowser
     \<lparr> HTML = Some ''<p class=\"a\">x</p>'', plainText = Some '' '',
       mode = Some AUTO, tagName = None, preserveWhiteSpace = None \<rparr>
     = Inr (Blocks [Block ''core/paragraph'' [(''content'', ''<p class=\"a\">x</p>'')] []])"
  by code_simp


subsection \<open>Errors of the inline filter chain\<close>

lemma pasteHandler_INLINE:
  assumes "modeOf inp = INLINE"
  shows "pasteHandler env br inp =
           inlineResult (filterInlineHTML env br (fst (markdownStep env br inp))
                           (preserveWhiteSpace inp))"
  using assms mode_INLINE_stays [OF assms, of env br]
  by (simp add: pasteHandler_def Let_def)

text \<open>
  The serialization that a browser gives for a background image with a data URI has a
  semicolon inside the parentheses; the piece after it has no colon, and
  \<open>removeDefaultStyles\<close> raises.
\<close>

lemma removeDefaultStyles_data_uri:
  assumes "styleText br as = ''background-image: url(\"data:image/png;base64,AAAA\");''"
  shows "removeDefaultStyles br as = Inl TypeError"
proof -
  have "getStylesEntries ''background-image: url(\"data:image/png;base64,AAAA\");''
          = Inl TypeError"
    by code_simp
  then show ?thesis using assms by (simp add: removeDefaultStyles_raises)
qed

text \<open>
  C5. The handler can raise: in mode INLINE, on a \<open>span\<close> whose style has a data URI, the
  result is the \<open>TypeError\<close> of \<open>values.split\<close> in \<open>getStylesEntries\<close>.
\<close>

theorem pasteHandler_raises:
  "pasteHandler exampleCollaborators exampleBrowser
     \<lparr> HTML = Some ''<span style=\"background-image: url(data:image/png;base64,AAAA)\">x</span>'',
       plainText = None, mode = Some INLINE, tagName = None, preserveWhiteSpace = None \<rparr>
   = Inl TypeError"
proof -
  let ?h = "''<span style=\"background-image: url(data:image/png;base64,AAAA)\">x</span>''"
  let ?inp = "\<lparr> HTML = Some ?h, plainText = None, mode = Some INLINE, tagName = None,
                 preserveWhiteSpace = None \<rparr>"
  have m: "modeOf ?inp = INLINE" by (simp add: modeOf_def)
  have w: "fst (markdownStep exampleCollaborators exampleBrowser ?inp) = ?h"
    by code_simp
  have p: "exampleParse ?h =
             [Element ''span'' [(''style'', ''background-image: url(data:image/png;base64,AAAA)'')]
                [TextNode ''x'']]"
    by code_simp
  have e: "getStylesEntries ''background-image: url(data:image/png;base64,AAAA)'' = Inl TypeError"
    by code_simp
  have r: "removeDefaultStyles exampleBrowser
             [(''style'', ''background-image: url(data:image/png;base64,AAAA)'')] = Inl TypeError"
    by (rule removeDefaultStyles_raises) (simp add: styleText_def exampleBrowser_simps e)
  have f: "filterInlineHTML exampleCollaborators exampleBrowser ?h None = Inl TypeError"
    by (simp add: filterInlineHTML_def removeDefaultStylesFromAllElements_def
        exampleBrowser_simps p r)
  show ?thesis
    unfolding pasteHandler_INLINE [OF m] w by (simp add: f inlineResult_def)
qed

text \<open>
  C2. With mode INLINE the handler does not always return a string: on an \<open>em\<close> whose
  style has a data URI it ends with the \<open>TypeError\<close> of \<open>getStylesEntries\<close> and
  returns nothing.
\<close>

theorem pasteHandler_inline_no_string:
  "modeOf \<lparr> HTML = Some ''<em style=\"background: url(data:image/gif;base64,R0lG)\">x</em>'',
             plainText = Some ''x'', mode = Some INLINE, tagName = None,
             preserveWhiteSpace = None \<rparr> = INLINE \<and>
   pasteHandler exampleCollaborators exampleBrowser
     \<lparr> HTML = Some ''<em style=\"background: url(data:image/gif;base64,R0lG)\">x</em>'',
       plainText = Some ''x'', mode = Some INLINE, tagName = None, preserveWhiteSpace = None \<rparr>
   = Inl TypeError"
proof -
  let ?h = "''<em style=\"background: url(data:image/gif;base64,R0lG)\">x</em>''"
  let ?inp = "\<lparr> HTML = Some ?h, plainText = Some ''x'', mode = Some INLINE, tagName = None,
                 preserveWhiteSpace = None \<rparr>"
  have m: "modeOf ?inp = INLINE" by (simp add: modeOf_def)
  have w: "fst (markdownStep exampleCollaborators exampleBrowser ?inp) = ?h"
    by code_simp
  have p: "exampleParse ?h =
             [Element ''em'' [(''style'', ''background: url(data:image/gif;base64,R0lG)'')]
                [TextNode ''x'']]"
    by code_simp
  have e: "getStylesEntries ''background: url(data:image/gif;base64,R0lG)'' = Inl TypeError"
    by code_simp
  have r: "removeDefaultStyles exampleBrowser
             [(''style'', ''background: url(data:image/gif;base64,R0lG)'')] = Inl TypeError"
    by (rule removeDefaultStyles_raises) (simp add: styleText_def exampleBrowser_simps e)
  have f: "filterInlineHTML exampleCollaborators exampleBrowser ?h None = Inl TypeError"
    by (simp add: filterInlineHTML_def removeDefaultStylesFromAllElements_def
        exampleBrowser_simps p r)
  have "pasteHandler exampleCollaborators exampleBrowser ?inp = Inl TypeError"
    unfolding pasteHandler_INLINE [OF m] w by (simp add: f inlineResult_def)
  with m show ?thesis by blast
qed

subsection \<open>What the inline filter chain leaves in\<close>

text \<open>
  C7. The inline filter chain returns block-level markup: a \<open>div\<close> with a class attribute
  comes back as a \<open>div\<close>, with an empty style attribute added.
\<close>

theorem filterInlineHTML_keeps_block:
  "filterInlineHTML exampleCollaborators exampleBrowser ''<div class=\"x\">a</div>'' None
     = Inr ''<div class=\"x\" style=\"\">a</div>''"
proof -
  have p: "exampleParse ''<div class=\"x\">a</div>''
             = [Element ''div'' [(''class'', ''x'')] [TextNode ''a'']]"
    by code_simp
  have d: "applyToAllSuccessors_removeDefaultStyles exampleBrowser
             (exampleParse ''<div class=\"x\">a</div>'')
           = Inr [Element ''div'' [(''class'', ''x''), (''style'', [])] [TextNode ''a'']]"
    unfolding p
    by (simp add: removeDefaultStyles_no_style styleText_def exampleBrowser_simps)
  have u: "exampleSerialize (applyToAllSuccessors_unwrap exampleBrowser False
             (exampleParse (exampleSerialize
                [Element ''div'' [(''class'', ''x''), (''style'', [])] [TextNode ''a'']])))
           = ''<div class=\"x\" style=\"\">a</div>''"
    by code_simp
  show ?thesis
    using filterInlineHTML_example [OF d, of None] unfolding u .
qed

subsection \<open>What the unwrapping step passes over\<close>

lemma unwrap_keeps_attributed:
  assumes "\<not> hasNoStylesOrAttrs br as"
  shows "applyToAllSuccessors_unwrap br False (Element t as cs # ns) =
           Element t as (applyToAllSuccessors_unwrap br False cs)
             # applyToAllSuccessors_unwrap br False ns"
  using assms by simp

lemma unwrap_nonelements:
  "list_all (\<lambda>n. \<not> isElement n) cs \<Longrightarrow>
   applyToAllSuccessors_unwrap br skip (cs @ ns) = cs @ applyToAllSuccessors_unwrap br skip ns"
proof (induction cs)
  case Nil
  then show ?case by simp
next
  case (Cons c cs)
  then show ?case by (cases c) simp_all
qed

text \<open>
  After an element with text content is unwrapped, the element that follows it is kept
  as it is, whatever its attributes; and when an unwrapped element begins with an element,
  that child is kept as it is.
\<close>

lemma unwrap_passes_over_sibling:
  assumes "hasNoStylesOrAttrs br as" and "list_all (\<lambda>n. \<not> isElement n) cs"
  shows "applyToAllSuccessors_unwrap br False (Element t as cs # Element t' as' cs' # ns) =
           cs @ Element t' as' cs' # applyToAllSuccessors_unwrap br False ns"
  using assms by (simp add: unwrap_nonelements)

lemma unwrap_passes_over_child:
  assumes "hasNoStylesOrAttrs br as"
  shows "applyToAllSuccessors_unwrap br False (Element t as (Element t' as' cs' # cs) # ns) =
           Element t' as' cs' # applyToAllSuccessors_unwrap br False (cs @ ns)"
  using assms by simp

text \<open>
  C9. The unwrapping step passes over the element that follows an unwrapped one: of two
  sibling elements with an empty style and no other attribute only the first is unwrapped,
  and of an element and its only child only the parent.
\<close>

theorem unwrap_passes_over:
  "hasNoStylesOrAttrs exampleBrowser [(''style'', [])] \<and>
   unwrapSpansWithNoStylesAndAtrrs exampleBrowser
     ''<strong style=\"\">a</strong><em style=\"\">b</em>'' = ''a<em style=\"\">b</em>'' \<and>
   unwrapSpansWithNoStylesAndAtrrs exampleBrowser
     ''<p style=\"\"><strong style=\"\">hi</strong></p>'' = ''<strong style=\"\">hi</strong>'' \<and>
   filterInlineHTML exampleCollaborators exampleBrowser ''<strong>a</strong><em>b</em>'' None
     = Inr ''a<em style=\"\">b</em>''"
proof -
  have a: "hasNoStylesOrAttrs exampleBrowser [(''style'', [])]" by code_simp
  have b: "unwrapSpansWithNoStylesAndAtrrs exampleBrowser
     ''<strong style=\"\">a</strong><em style=\"\">b</em>'' = ''a<em style=\"\">b</em>''"
    by code_simp
  have c: "unwrapSpansWithNoStylesAndAtrrs exampleBrowser
     ''<p style=\"\"><strong style=\"\">hi</strong></p>'' = ''<strong style=\"\">hi</strong>''"
    by code_simp
  have p: "exampleParse ''<strong>a</strong><em>b</em>''
             = [Element ''strong'' [] [TextNode ''a''], Element ''em'' [] [TextNode ''b'']]"
    by code_simp
  have d: "applyToAllSuccessors_removeDefaultStyles exampleBrowser
             (exampleParse ''<strong>a</strong><em>b</em>'')
           = Inr [Element ''strong'' [(''style'', [])] [TextNode ''a''],
                  Element ''em'' [(''style'', [])] [TextNode ''b'']]"
    unfolding p
    by (simp add: removeDefaultStyles_no_style styleText_def exampleBrowser_simps)
  have u: "exampleSerialize (applyToAllSuccessors_unwrap exampleBrowser False
             (exampleParse (exampleSerialize
                [Element ''strong'' [(''style'', [])] [TextNode ''a''],
                 Element ''em'' [(''style'', [])] [TextNode ''b'']])))
           = ''a<em style=\"\">b</em>''"
    by code_simp
  have f: "filterInlineHTML exampleCollaborators exampleBrowser ''<strong>a</strong><em>b</em>''
             None = Inr ''a<em style=\"\">b</em>''"
    using filterInlineHTML_example [OF d, of None] unfolding u .
  from a b c f show ?thesis by blast
qed


end
